theory Spec2Isabelle
  imports Complex_Main "HOL-Library.Multiset" "HOL-Library.Log_Nat"
begin

section \<open>Data model of \<open>page.tsx\<close>\<close>

text \<open>
  The adaptive colour-tap activity of \<open>src/page.tsx\<close>. A JavaScript \<open>number\<close> is an
  IEEE 754 double; a finite double is modelled by the rational it denotes. An operation
  that rounds is the exact operation followed by \<open>dbl\<close>, the rounding to the nearest
  double (ties to even, subnormals included): so are written the divisions, products, sums
  and the subtraction of the scorer, and the subtraction and division that give the
  latency. No operation of the page overflows on finite arguments. The counters and streaks
  are whole numbers far below \<open>2^53\<close>, where adding 1 is exact on doubles; their increments
  are written with the exact \<open>+\<close>.
\<close>

datatype Level = easy | medium | hard

datatype ColorKey = rojo | azul | amarillo

datatype Action = keep | support | ease

datatype Source = backend | fallback

datatype Rule = none | support_by_frustration | ease_by_frustration | levelup_by_streak

datatype Dir = up | down

record Swatch =
  swatch_id :: string
  label :: ColorKey
  hex :: string

record Round =
  round_id :: string
  target :: ColorKey
  round_level :: Level
  options :: "Swatch list"

record Components =
  comp_e :: rat
  comp_h :: rat
  comp_r :: rat
  comp_t :: rat
  comp_s :: rat

record Frustration =
  fvalue :: rat
  components :: Components

record Attempt =
  roundId :: string
  att_target :: ColorKey
  chosen :: ColorKey
  correct :: bool
  att_hintsUsed :: rat
  ts :: rat
  latencySec :: rat
  frustration :: rat
  frustrationComponents :: Components
  action :: Action
  source :: Source
  levelBefore :: Level
  levelAfter :: Level
  rule :: Rule

definition MAX_ATTEMPTS :: nat where
  "MAX_ATTEMPTS = 100"

section \<open>Doubles\<close>

text \<open>\<open>binade x\<close> is the exponent \<open>e\<close> with \<open>2^e \<le> \<bar>x\<bar> < 2^(e+1)\<close>, for \<open>x \<noteq> 0\<close>.\<close>

definition binade :: "rat \<Rightarrow> int" where
  "binade x =
     (let (p, q) = quotient_of \<bar>x\<bar>;
          d = bitlen p - bitlen q
      in if 2 powi d \<le> \<bar>x\<bar> then d else d - 1)"

text \<open>The nearest integer, the even one on a tie.\<close>

definition roundEven :: "rat \<Rightarrow> int" where
  "roundEven y =
     (let f = \<lfloor>y\<rfloor>;
          d = y - of_int f
      in if d < 1 / 2 then f
         else if d > 1 / 2 then f + 1
         else if even f then f else f + 1)"

text \<open>
  The nearest double: 53 significant bits, so the spacing at \<open>x\<close> is \<open>2^(e - 52)\<close> for
  \<open>e = binade x\<close>, and \<open>2^(-1074)\<close> below \<open>2^(-1022)\<close>.
\<close>

definition dbl :: "rat \<Rightarrow> rat" where
  "dbl x =
     (if x = 0 then 0
      else (let u = 2 powi (max (binade x) (- 1022) - 52)
            in of_int (roundEven (x / u)) * u))"

definition fadd :: "rat \<Rightarrow> rat \<Rightarrow> rat" where
  "fadd a b = dbl (a + b)"

definition fsub :: "rat \<Rightarrow> rat \<Rightarrow> rat" where
  "fsub a b = dbl (a - b)"

definition fmul :: "rat \<Rightarrow> rat \<Rightarrow> rat" where
  "fmul a b = dbl (a * b)"

definition fdiv :: "rat \<Rightarrow> rat \<Rightarrow> rat" where
  "fdiv a b = dbl (a / b)"

section \<open>Frustration scorer\<close>

text \<open>\<open>clamp(v, min = 0, max = 1)\<close>: \<open>Math.max(min, Math.min(max, v))\<close>.\<close>

definition clamp :: "rat \<Rightarrow> rat \<Rightarrow> rat \<Rightarrow> rat" where
  "clamp v mn mx = max mn (min mx v)"

text \<open>
  \<open>Number(x.toFixed(2))\<close>. \<open>toFixed(2)\<close> prints the multiple of \<open>1/100\<close> nearest to the
  exact value of the double \<open>x\<close>, the larger one on a tie (a negative \<open>x\<close> is rounded on its
  absolute value; for \<open>\<bar>x\<bar> \<ge> 10^21\<close> it prints the number itself). \<open>Number\<close> then reads
  the double nearest to that decimal. The result is kept here as the decimal \<open>k/100\<close>
  itself: the literals \<open>0.35\<close> and \<open>0.65\<close> that the policy compares it with are read the
  same way, and the comparisons come out the same on the doubles (\<open>hundredths_compare\<close>).
\<close>

definition toFixed2 :: "rat \<Rightarrow> rat" where
  "toFixed2 x =
     (if \<bar>x\<bar> \<ge> 10 ^ 21 then x
      else if x < 0 then - (of_int \<lfloor>(- x) * 100 + 1 / 2\<rfloor> / 100)
      else of_int \<lfloor>x * 100 + 1 / 2\<rfloor> / 100)"

record FrustrationParams =
  p_errorsConsecutive :: rat
  p_hintsUsed :: rat
  p_retriesSameRound :: rat
  p_latencySec :: rat
  p_perseveration :: rat

text \<open>
  The weighted sum \<open>F\<close> of \<open>computeFrustration\<close>, before \<open>toFixed\<close>: each literal weight
  is the double nearest to it, each product and each sum is rounded, the sums from left to
  right.
\<close>

definition weighted :: "Components \<Rightarrow> rat" where
  "weighted c =
     fadd (fadd (fadd (fadd
       (fmul (dbl (35 / 100)) (comp_e c))
       (fmul (dbl (20 / 100)) (comp_h c)))
       (fmul (dbl (15 / 100)) (comp_r c)))
       (fmul (dbl (20 / 100)) (comp_t c)))
       (fmul (dbl (10 / 100)) (comp_s c))"

definition computeFrustration :: "FrustrationParams \<Rightarrow> Frustration" where
  "computeFrustration params =
     (let e = clamp (fdiv (p_errorsConsecutive params) 3) 0 1;
          h = clamp (fdiv (p_hintsUsed params) 2) 0 1;
          r = clamp (fdiv (p_retriesSameRound params) 2) 0 1;
          t = clamp (fdiv (fsub (p_latencySec params) 3) (fsub 12 3)) 0 1;
          s = clamp (fdiv (p_perseveration params) 2) 0 1;
          c = \<lparr>comp_e = e, comp_h = h, comp_r = r, comp_t = t, comp_s = s\<rparr>;
          F = weighted c
      in \<lparr>fvalue = toFixed2 F, components = c\<rparr>)"

section \<open>Difficulty levels\<close>

text \<open>\<open>Array.prototype.indexOf\<close>: the first position of the element, \<open>-1\<close> when absent.\<close>

fun indexOf :: "'a list \<Rightarrow> 'a \<Rightarrow> int" where
  "indexOf [] x = - 1"
| "indexOf (y # ys) x =
     (if y = x then 0 else (let i = indexOf ys x in if i < 0 then - 1 else i + 1))"

text \<open>
  \<open>nextLevel\<close>. Both indices read are inside \<open>order\<close> whatever \<open>idx\<close> is, since
  \<open>min (idx + 1) 2\<close> and \<open>max (idx - 1) 0\<close> lie in \<open>0..2\<close> for \<open>idx \<ge> -1\<close>.
\<close>

definition nextLevel :: "Level \<Rightarrow> Dir \<Rightarrow> Level" where
  "nextLevel current dir =
     (let order = [easy, medium, hard];
          idx = indexOf order current
      in if dir = up then order ! nat (min (idx + 1) (int (length order) - 1))
         else order ! nat (max (idx - 1) 0))"

section \<open>Local decision policy (the fallback of \<open>onPick\<close>)\<close>

record Decision =
  d_frustration :: Frustration
  d_action :: Action
  suggestedLevel :: Level
  nextHighFrustrationStreak :: rat
  nextSuccessStreak :: rat

text \<open>
  The body of the \<open>catch\<close> block after \<open>computeFrustration\<close>: from the score, the level, the
  two streaks and the correctness of the pick to the decision object.
\<close>

definition fallbackPolicy :: "Frustration \<Rightarrow> Level \<Rightarrow> rat \<Rightarrow> rat \<Rightarrow> bool \<Rightarrow> Decision" where
  "fallbackPolicy fr lvl highFrustrationStreak successStreak corr =
     (let isHigh = (fvalue fr \<ge> 65 / 100);
          nextHigh = (if isHigh then highFrustrationStreak + 1 else 0);
          act = (if fvalue fr < 35 / 100 then keep
                 else if fvalue fr < 65 / 100 then support
                 else if nextHigh \<ge> 2 then ease else support);
          nextSuccess0 = (if corr then successStreak + 1 else 0);
          (suggested, nextSuccess) =
             (if act = ease then (nextLevel lvl down, 0)
              else if nextSuccess0 \<ge> 3 then (nextLevel lvl up, 0)
              else (lvl, nextSuccess0))
      in \<lparr>d_frustration = fr,
          d_action = act,
          suggestedLevel = suggested,
          nextHighFrustrationStreak = (if act = ease then 0 else nextHigh),
          nextSuccessStreak = nextSuccess\<rparr>)"

section \<open>Round generator\<close>

text \<open>
  The host supplies what the page takes from its environment. \<open>Math.random()\<close> is a
  sequence of draws, consumed in call order; ECMAScript promises each draw in \<open>[0,1)\<close>
  (\<open>unitDraws\<close>). \<open>Number.prototype.toString(radix)\<close> is a parameter \<open>numStr\<close> of the
  functions that print a number, and \<open>Date.now()\<close> is passed in where it is read.
  The products \<open>Math.random() * n\<close> that index an array are written with the exact
  product: \<open>n\<close> is at most 3 there, and for \<open>n = 2\<close>, the choice among the two candidates
  left by a previous target, the product of a double by 2 is itself a double.
\<close>

type_synonym rng = "nat \<Rightarrow> rat"

definition nextRandom :: "rng \<Rightarrow> rat \<times> rng" where
  "nextRandom g = (g 0, \<lambda>n. g (Suc n))"

definition unitDraws :: "rng \<Rightarrow> bool" where
  "unitDraws g = (\<forall>n. 0 \<le> g n \<and> g n < 1)"

text \<open>\<open>arr[i]\<close>: \<open>None\<close> stands for the \<open>undefined\<close> that JavaScript reads out of range.\<close>

definition elemAt :: "'a list \<Rightarrow> int \<Rightarrow> 'a option" where
  "elemAt arr i = (if 0 \<le> i \<and> i < int (length arr) then Some (arr ! nat i) else None)"

definition colorName :: "ColorKey \<Rightarrow> string" where
  "colorName c = (case c of rojo \<Rightarrow> ''rojo'' | azul \<Rightarrow> ''azul'' | amarillo \<Rightarrow> ''amarillo'')"

definition BASE_COLOR :: "ColorKey \<Rightarrow> string" where
  "BASE_COLOR c =
     (case c of rojo \<Rightarrow> ''#FF3B30'' | azul \<Rightarrow> ''#007AFF'' | amarillo \<Rightarrow> ''#FFD60A'')"

definition SWATCHES :: "ColorKey \<Rightarrow> Level \<Rightarrow> Swatch list" where
  "SWATCHES c l =
     (case c of
        rojo \<Rightarrow>
          (case l of
             easy \<Rightarrow> [\<lparr>swatch_id = ''rojo_base'', label = rojo, hex = ''#FF5A5F''\<rparr>]
           | medium \<Rightarrow>
               [\<lparr>swatch_id = ''rojo_base'', label = rojo, hex = ''#FF5A5F''\<rparr>,
                \<lparr>swatch_id = ''rojo_rosado'', label = rojo, hex = ''#FF7AA2''\<rparr>,
                \<lparr>swatch_id = ''rojo_naranja'', label = rojo, hex = ''#FF6B3D''\<rparr>]
           | hard \<Rightarrow>
               [\<lparr>swatch_id = ''rojo_base'', label = rojo, hex = ''#FF5A5F''\<rparr>,
                \<lparr>swatch_id = ''rojo_coral'', label = rojo, hex = ''#FF6F61''\<rparr>,
                \<lparr>swatch_id = ''rojo_salmon'', label = rojo, hex = ''#FF7F7F''\<rparr>])
      | azul \<Rightarrow>
          (case l of
             easy \<Rightarrow> [\<lparr>swatch_id = ''azul_base'', label = azul, hex = ''#3B82F6''\<rparr>]
           | medium \<Rightarrow>
               [\<lparr>swatch_id = ''azul_base'', label = azul, hex = ''#3B82F6''\<rparr>,
                \<lparr>swatch_id = ''azul_cielo'', label = azul, hex = ''#60A5FA''\<rparr>,
                \<lparr>swatch_id = ''azul_profundo'', label = azul, hex = ''#2563EB''\<rparr>]
           | hard \<Rightarrow>
               [\<lparr>swatch_id = ''azul_base'', label = azul, hex = ''#3B82F6''\<rparr>,
                \<lparr>swatch_id = ''azul_indigo'', label = azul, hex = ''#4F46E5''\<rparr>,
                \<lparr>swatch_id = ''azul_marino'', label = azul, hex = ''#1D4ED8''\<rparr>])
      | amarillo \<Rightarrow>
          (case l of
             easy \<Rightarrow> [\<lparr>swatch_id = ''amarillo_base'', label = amarillo, hex = ''#FBBF24''\<rparr>]
           | medium \<Rightarrow>
               [\<lparr>swatch_id = ''amarillo_base'', label = amarillo, hex = ''#FBBF24''\<rparr>,
                \<lparr>swatch_id = ''amarillo_dorado'', label = amarillo, hex = ''#F59E0B''\<rparr>,
                \<lparr>swatch_id = ''amarillo_claro'', label = amarillo, hex = ''#FCD34D''\<rparr>]
           | hard \<Rightarrow>
               [\<lparr>swatch_id = ''amarillo_base'', label = amarillo, hex = ''#FBBF24''\<rparr>,
                \<lparr>swatch_id = ''amarillo_calido'', label = amarillo, hex = ''#F4B400''\<rparr>,
                \<lparr>swatch_id = ''amarillo_mostaza'', label = amarillo, hex = ''#DFAF2B''\<rparr>]))"

text \<open>
  \<open>shuffle\<close>: the loop \<open>for (i = a.length - 1; i > 0; i--)\<close> with
  \<open>j = Math.floor(Math.random() * (i + 1))\<close> and the swap of \<open>a[i]\<close> with \<open>a[j]\<close>. A \<open>j\<close>
  outside the array reads \<open>undefined\<close>.
\<close>

fun shuffleFrom :: "nat \<Rightarrow> 'a list \<Rightarrow> rng \<Rightarrow> ('a list \<times> rng) option" where
  "shuffleFrom 0 a g = Some (a, g)"
| "shuffleFrom (Suc k) a g =
     (let (u, g') = nextRandom g;
          i = Suc k;
          j = \<lfloor>u * (of_nat i + 1)\<rfloor>
      in if 0 \<le> j \<and> j < int (length a) \<and> i < length a
         then shuffleFrom k (a[i := a ! nat j, nat j := a ! i]) g'
         else None)"

definition shuffle :: "'a list \<Rightarrow> rng \<Rightarrow> ('a list \<times> rng) option" where
  "shuffle arr g = shuffleFrom (length arr - 1) arr g"

definition pickOne :: "'a list \<Rightarrow> rng \<Rightarrow> 'a option \<times> rng" where
  "pickOne arr g =
     (let (u, g') = nextRandom g in (elemAt arr \<lfloor>u * of_nat (length arr)\<rfloor>, g'))"

text \<open>The tail \<open>Math.random().toString(16).slice(2)\<close> of a generated identifier.\<close>

definition randomTail :: "(nat \<Rightarrow> rat \<Rightarrow> string) \<Rightarrow> rat \<Rightarrow> string" where
  "randomTail numStr u = drop 2 (numStr 16 u)"

definition makeBaseSwatch :: "(nat \<Rightarrow> rat \<Rightarrow> string) \<Rightarrow> ColorKey \<Rightarrow> rng \<Rightarrow> Swatch \<times> rng" where
  "makeBaseSwatch numStr color g =
     (let (u, g') = nextRandom g
      in (\<lparr>swatch_id = colorName color @ ''_'' @ randomTail numStr u,
           label = color,
           hex = BASE_COLOR color\<rparr>, g'))"

text \<open>\<open>cs.map(c => makeBaseSwatch(c))\<close>, the draws taken from left to right.\<close>

fun makeBaseSwatches :: "(nat \<Rightarrow> rat \<Rightarrow> string) \<Rightarrow> ColorKey list \<Rightarrow> rng \<Rightarrow> Swatch list \<times> rng" where
  "makeBaseSwatches numStr [] g = ([], g)"
| "makeBaseSwatches numStr (c # cs) g =
     (let (sw, g') = makeBaseSwatch numStr c g;
          (sws, g'') = makeBaseSwatches numStr cs g'
      in (sw # sws, g''))"

text \<open>The correct option of \<open>makeRound\<close> (\<open>correctSwatch\<close>).\<close>

definition correctSwatch ::
  "(nat \<Rightarrow> rat \<Rightarrow> string) \<Rightarrow> ColorKey \<Rightarrow> Level \<Rightarrow> rng \<Rightarrow> (Swatch \<times> rng) option" where
  "correctSwatch numStr tgt lvl g =
     (if lvl = easy then Some (makeBaseSwatch numStr tgt g)
      else (case pickOne (SWATCHES tgt lvl) g of
              (None, g') \<Rightarrow> None
            | (Some v, g') \<Rightarrow>
                (let (u, g'') = nextRandom g'
                 in Some (v\<lparr>swatch_id := colorName tgt @ ''_'' @ randomTail numStr u\<rparr>, g''))))"

text \<open>
  \<open>makeRound(prevTarget, level)\<close>. \<open>now\<close> is the \<open>Date.now()\<close> of the round identifier. The
  result is \<open>None\<close> only where an \<open>undefined\<close> would be read, which needs a draw outside
  \<open>[0,1)\<close>.
\<close>

definition makeRound ::
  "(nat \<Rightarrow> rat \<Rightarrow> string) \<Rightarrow> rat \<Rightarrow> ColorKey option \<Rightarrow> Level \<Rightarrow> rng \<Rightarrow> (Round \<times> rng) option" where
  "makeRound numStr now prevTarget lvl g =
     (let all = [rojo, azul, amarillo];
          candidates = (case prevTarget of Some p \<Rightarrow> filter (\<lambda>c. c \<noteq> p) all | None \<Rightarrow> all);
          (u, g1) = nextRandom g
      in case elemAt candidates \<lfloor>u * of_nat (length candidates)\<rfloor> of
           None \<Rightarrow> None
         | Some tgt \<Rightarrow>
             (case correctSwatch numStr tgt lvl g1 of
                None \<Rightarrow> None
              | Some (cs, g2) \<Rightarrow>
                  (let (distractors, g3) = makeBaseSwatches numStr (filter (\<lambda>c. c \<noteq> tgt) all) g2
                   in case shuffle (cs # distractors) g3 of
                        None \<Rightarrow> None
                      | Some (opts, g4) \<Rightarrow>
                          (let (v, g5) = nextRandom g4
                           in Some (\<lparr>round_id = numStr 10 now @ ''-'' @ randomTail numStr v,
                                     target = tgt,
                                     round_level = lvl,
                                     options = opts\<rparr>, g5)))))"

section \<open>Decision gateway\<close>

text \<open>The body of the request to \<open>/decision\<close>; the fallback reads the same values.\<close>

record Request =
  q_level :: Level
  q_errorsConsecutive :: rat
  q_hintsUsed :: rat
  q_retriesSameRound :: rat
  q_latencySec :: rat
  q_perseveration :: rat
  q_highFrustrationStreak :: rat
  q_successStreak :: rat
  q_correct :: bool

text \<open>The \<open>catch\<close> block of \<open>onPick\<close>: the scorer, then the policy.\<close>

definition fallbackDecision :: "Request \<Rightarrow> Decision" where
  "fallbackDecision q =
     fallbackPolicy
       (computeFrustration
          \<lparr>p_errorsConsecutive = q_errorsConsecutive q,
           p_hintsUsed = q_hintsUsed q,
           p_retriesSameRound = q_retriesSameRound q,
           p_latencySec = q_latencySec q,
           p_perseveration = q_perseveration q\<rparr>)
       (q_level q) (q_highFrustrationStreak q) (q_successStreak q) (q_correct q)"

text \<open>
  The body of an \<open>ok\<close> response, as far as this model follows it: text that is not JSON
  (\<open>res.json()\<close> rejects), the JSON value \<open>null\<close>, or a JSON object whose \<open>frustration\<close>,
  \<open>action\<close>, \<open>suggestedLevel\<close> and two streaks have the declared types of the variable
  \<open>decision\<close>, given by those values. A JSON body of any other shape would pass values
  outside the declared types on to the state setters; the typed session below has no place
  for them, so such bodies are not inputs of this model.
\<close>

datatype Body = NotJson | JsonNull | JsonDecision Decision

text \<open>
  What \<open>await fetch(...)\<close> and \<open>await res.json()\<close> can do: the fetch rejects (no
  connection, or the abort fired by the 800 ms timer), or it resolves with a response whose
  \<open>ok\<close> flag and body are given.
\<close>

datatype Fetch =
    NetworkError
  | Aborted
  | Response bool Body

text \<open>
  The value of the variable \<open>decision\<close> after the \<open>try\<close>/\<open>catch\<close>: a decision object,
  built locally or sent by the service, or the \<open>null\<close> that the service sent.
\<close>

datatype Payload = Null | Dec Decision

definition gateway :: "Request \<Rightarrow> Fetch \<Rightarrow> Payload \<times> Source" where
  "gateway q f =
     (case f of
        NetworkError \<Rightarrow> (Dec (fallbackDecision q), fallback)
      | Aborted \<Rightarrow> (Dec (fallbackDecision q), fallback)
      | Response ok body \<Rightarrow>
          (if \<not> ok then (Dec (fallbackDecision q), fallback)
           else (case body of
                   NotJson \<Rightarrow> (Dec (fallbackDecision q), fallback)
                 | JsonNull \<Rightarrow> (Null, backend)
                 | JsonDecision d \<Rightarrow> (Dec d, backend))))"

section \<open>The handler \<open>onPick\<close>\<close>

datatype Feedback = idle | fb_correct | fb_wrong

text \<open>The state variables of \<open>Page\<close>; \<open>round_st\<close> is the state variable \<open>round\<close>.\<close>

record Session =
  decisionSource :: Source
  level :: Level
  round_st :: "Round option"
  feedback :: Feedback
  lastChosen :: "ColorKey option"
  successStreak :: rat
  pendingLevelUp :: bool
  highFrustrationStreak :: rat
  hintOn :: bool
  hintsUsed :: rat
  attempts :: "Attempt list"
  roundStartTs :: rat
  errorsConsecutive :: rat
  retriesSameRound :: rat
  lastWrongChoice :: "string option"
  perseveration :: rat

text \<open>What \<open>onPick\<close> reads from its environment, in the order of the source lines.\<close>

record PickEnv =
  now_pick :: rat
  fetched :: Fetch
  now_log :: rat
  now_round :: rat
  now_start :: rat
  rnd :: rng

text \<open>The two \<open>setTimeout\<close> callbacks that \<open>onPick\<close> can leave behind.\<close>

datatype Timer = NoTimer | AdvanceAfter700 ColorKey Level | HideHintAfter400

text \<open>
  How a call can fail to complete, each with the session as the setters called so far
  leave it: \<open>TypeError\<close> is the destructuring of a \<open>null\<close> decision; \<open>UndefinedRead\<close> is a
  round generation that read out of range.
\<close>

datatype PickError = TypeError | UndefinedRead

text \<open>\<open>Math.round\<close>: the nearest integer, the larger one on a tie.\<close>

definition Math_round :: "rat \<Rightarrow> rat" where
  "Math_round x = of_int \<lfloor>x + 1 / 2\<rfloor>"

text \<open>
  The block ``METRICAS'' of \<open>onPick\<close>: the next values of \<open>errorsConsecutive\<close>,
  \<open>retriesSameRound\<close> and \<open>perseveration\<close>, and the new \<open>lastWrongChoice\<close>.
\<close>

definition metrics :: "Session \<Rightarrow> Swatch \<Rightarrow> bool \<Rightarrow> rat \<times> rat \<times> rat \<times> string option" where
  "metrics st swatch corr =
     (if corr then (0, 0, 0, None)
      else (errorsConsecutive st + 1,
            retriesSameRound st + 1,
            (if lastWrongChoice st = Some (swatch_id swatch)
             then (perseveration st + 1, lastWrongChoice st)
             else (perseveration st, Some (swatch_id swatch)))))"

definition buildRequest :: "Session \<Rightarrow> Swatch \<Rightarrow> Round \<Rightarrow> rat \<Rightarrow> Request" where
  "buildRequest st swatch rd now =
     (let latency = Math_round (fdiv (fsub now (roundStartTs st)) 1000);
          corr = (label swatch = target rd);
          (nextErrorsConsecutive, nextRetriesSameRound, nextPerseveration, lw) =
             metrics st swatch corr
      in \<lparr>q_level = level st,
          q_errorsConsecutive = nextErrorsConsecutive,
          q_hintsUsed = hintsUsed st,
          q_retriesSameRound = nextRetriesSameRound,
          q_latencySec = latency,
          q_perseveration = nextPerseveration,
          q_highFrustrationStreak = highFrustrationStreak st,
          q_successStreak = successStreak st,
          q_correct = corr\<rparr>)"

definition ruleOf :: "Action \<Rightarrow> Level \<Rightarrow> Level \<Rightarrow> Rule" where
  "ruleOf act suggested lvl =
     (if act = support then support_by_frustration
      else if act = ease then ease_by_frustration
      else if suggested \<noteq> lvl then levelup_by_streak
      else none)"

text \<open>The updater passed to \<open>setAttempts\<close>: \<open>[record, ...prev].slice(0, MAX_ATTEMPTS)\<close>.\<close>

definition logAttempt :: "Attempt \<Rightarrow> Attempt list \<Rightarrow> Attempt list" where
  "logAttempt a prev = take MAX_ATTEMPTS (a # prev)"

definition attemptOf ::
  "Session \<Rightarrow> Swatch \<Rightarrow> Round \<Rightarrow> Request \<Rightarrow> Decision \<Rightarrow> Source \<Rightarrow> rat \<Rightarrow> Attempt" where
  "attemptOf st swatch rd q d src t =
     \<lparr>roundId = round_id rd,
      att_target = target rd,
      chosen = label swatch,
      correct = q_correct q,
      att_hintsUsed = hintsUsed st,
      ts = t,
      latencySec = q_latencySec q,
      frustration = fvalue (d_frustration d),
      frustrationComponents = components (d_frustration d),
      action = d_action d,
      source = src,
      levelBefore = level st,
      levelAfter = suggestedLevel d,
      rule = ruleOf (d_action d) (suggestedLevel d) (level st)\<rparr>"

text \<open>
  The setters that \<open>onPick\<close> calls before it asks for a decision: the pick, the feedback
  and the counters.
\<close>

definition applyMetrics :: "Session \<Rightarrow> Swatch \<Rightarrow> bool \<Rightarrow> Session" where
  "applyMetrics st swatch corr =
     (let (nextErrorsConsecutive, nextRetriesSameRound, nextPerseveration, lw) =
             metrics st swatch corr
      in st\<lparr>lastChosen := Some (label swatch),
            feedback := (if corr then fb_correct else fb_wrong),
            errorsConsecutive := nextErrorsConsecutive,
            retriesSameRound := nextRetriesSameRound,
            lastWrongChoice := lw,
            perseveration := nextPerseveration\<rparr>)"

text \<open>
  \<open>onPick\<close> from the decision on (steps 2 to 4 of the source): the state after the
  handler has run, and the timer it leaves. \<open>st\<close> is the session the handler was called
  on, whose fields it reads; \<open>st0\<close> is that session after the setters called so far.
\<close>

definition applyDecision ::
  "(nat \<Rightarrow> rat \<Rightarrow> string) \<Rightarrow> PickEnv \<Rightarrow> Session \<Rightarrow> Session \<Rightarrow> Swatch \<Rightarrow> Round \<Rightarrow> Request
     \<Rightarrow> Decision \<Rightarrow> Source \<Rightarrow> PickError \<times> Session + Session \<times> Timer" where
  "applyDecision numStr env st st0 swatch rd q d src =
     (let st1 = st0\<lparr>highFrustrationStreak := nextHighFrustrationStreak d,
                    successStreak := nextSuccessStreak d,
                    level := suggestedLevel d,
                    hintOn := (if d_action d = support then True else hintOn st0),
                    attempts := logAttempt (attemptOf st swatch rd q d src (now_log env)) (attempts st0)\<rparr>
      in if d_action d = ease then
           (let st2 = st1\<lparr>feedback := idle,
                          lastChosen := None,
                          hintOn := False,
                          hintsUsed := 0\<rparr>
            in case makeRound numStr (now_round env) (Some (target rd)) (suggestedLevel d) (rnd env) of
                 None \<Rightarrow> Inl (UndefinedRead, st2)
               | Some (r, g) \<Rightarrow>
                   Inr (st2\<lparr>round_st := Some r,
                            roundStartTs := now_start env,
                            errorsConsecutive := 0,
                            retriesSameRound := 0,
                            lastWrongChoice := None,
                            perseveration := 0\<rparr>, NoTimer))
         else if q_correct q then Inr (st1, AdvanceAfter700 (target rd) (suggestedLevel d))
         else Inr (st1, HideHintAfter400))"

definition onPick ::
  "(nat \<Rightarrow> rat \<Rightarrow> string) \<Rightarrow> PickEnv \<Rightarrow> Session \<Rightarrow> Swatch
     \<Rightarrow> PickError \<times> Session + Session \<times> Timer" where
  "onPick numStr env st swatch =
     (case round_st st of
        None \<Rightarrow> Inr (st, NoTimer)
      | Some rd \<Rightarrow>
          (let q = buildRequest st swatch rd (now_pick env);
               (payload, src) = gateway q (fetched env);
               st0 = (applyMetrics st swatch (q_correct q))\<lparr>decisionSource := src\<rparr>
           in case payload of
                Null \<Rightarrow> Inl (TypeError, st0)
              | Dec d \<Rightarrow> applyDecision numStr env st st0 swatch rd q d src))"

text \<open>
  The log after the records \<open>as\<close> were written in that order, one \<open>setAttempts\<close> update
  each.
\<close>

fun logAll :: "Attempt list \<Rightarrow> Attempt list \<Rightarrow> Attempt list" where
  "logAll prev [] = prev"
| "logAll prev (a # as) = logAll (logAttempt a prev) as"

section \<open>Properties of the rounding to doubles\<close>

lemma roundEven_cases:
  "roundEven y = \<lfloor>y\<rfloor> \<or> roundEven y = \<lfloor>y\<rfloor> + 1"
  by (simp add: roundEven_def Let_def)

lemma roundEven_of_int: "roundEven (of_int n) = n"
  by (simp add: roundEven_def Let_def)

lemma roundEven_near: "\<bar>of_int (roundEven y) - y\<bar> \<le> 1 / 2"
proof -
  define f where "f = \<lfloor>y\<rfloor>"
  have a: "of_int f \<le> y" and b: "y < of_int f + 1" unfolding f_def by linarith+
  consider "y - of_int f < 1 / 2" | "y - of_int f > 1 / 2" | "y - of_int f = 1 / 2" by linarith
  then show ?thesis
  proof cases
    case 1
    then have "roundEven y = f" by (simp add: roundEven_def Let_def f_def)
    then show ?thesis using a 1 by simp
  next
    case 2
    then have "roundEven y = f + 1" by (simp add: roundEven_def Let_def f_def)
    then show ?thesis using b 2 by simp
  next
    case 3
    have "roundEven y = f \<or> roundEven y = f + 1" unfolding f_def by (rule roundEven_cases)
    then show ?thesis using 3 by auto
  qed
qed

lemma roundEven_mono:
  assumes "y \<le> z"
  shows "roundEven y \<le> roundEven z"
proof (cases "\<lfloor>y\<rfloor> = \<lfloor>z\<rfloor>")
  case True
  then show ?thesis using assms by (auto simp: roundEven_def Let_def)
next
  case False
  have "\<lfloor>y\<rfloor> \<le> \<lfloor>z\<rfloor>" using assms by (rule floor_mono)
  then have lt: "\<lfloor>y\<rfloor> + 1 \<le> \<lfloor>z\<rfloor>" using False by simp
  have "roundEven y \<le> \<lfloor>y\<rfloor> + 1" using roundEven_cases [of y] by auto
  also have "\<dots> \<le> \<lfloor>z\<rfloor>" by (rule lt)
  also have "\<dots> \<le> roundEven z" using roundEven_cases [of z] by auto
  finally show ?thesis .
qed

lemma bitlen_powi:
  assumes "0 < p"
  shows "2 powi (bitlen p - 1) \<le> (of_int p :: rat)" and "(of_int p :: rat) < 2 powi bitlen p"
proof -
  have b1: "1 \<le> bitlen p" using assms bitlen_eq_zero_iff [of p] bitlen_nonneg [of p] by linarith
  have lo: "2 ^ nat (bitlen p - 1) \<le> p" and hi: "p < 2 ^ nat (bitlen p)"
    using bitlen_bounds [OF assms] by simp_all
  have "(of_int (2 ^ nat (bitlen p - 1)) :: rat) \<le> of_int p" using lo by (simp only: of_int_le_iff)
  then show "2 powi (bitlen p - 1) \<le> (of_int p :: rat)"
    using b1 by (simp add: power_int_def)
  have "(of_int p :: rat) < of_int (2 ^ nat (bitlen p))" using hi by (simp only: of_int_less_iff)
  then show "(of_int p :: rat) < 2 powi bitlen p"
    using b1 by (simp add: power_int_def)
qed

lemma binade_bounds:
  assumes "x \<noteq> 0"
  shows "2 powi binade x \<le> \<bar>x\<bar>" and "\<bar>x\<bar> < 2 powi (binade x + 1)"
proof -
  obtain p q where pq: "quotient_of \<bar>x\<bar> = (p, q)" by (cases "quotient_of \<bar>x\<bar>")
  have q: "0 < q" using pq by (rule quotient_of_denom_pos)
  have x: "\<bar>x\<bar> = of_int p / of_int q" using pq by (rule quotient_of_div)
  have "0 < \<bar>x\<bar>" using assms by simp
  then have p: "0 < p" using q unfolding x by (simp add: zero_less_divide_iff)
  define d where "d = bitlen p - bitlen q"
  have qr: "(0::rat) < of_int q" using q by simp
  have up: "\<bar>x\<bar> < 2 powi (d + 1)"
  proof -
    have "of_int p < (2::rat) powi bitlen p" by (rule bitlen_powi(2) [OF p])
    also have "\<dots> = 2 powi (d + 1) * 2 powi (bitlen q - 1)"
      by (simp add: d_def flip: power_int_add)
    also have "\<dots> \<le> 2 powi (d + 1) * of_int q"
      using bitlen_powi(1) [OF q] by (intro mult_left_mono) simp_all
    finally show ?thesis unfolding x using qr by (simp add: pos_divide_less_eq)
  qed
  have lo: "2 powi (d - 1) \<le> \<bar>x\<bar>"
  proof -
    have "2 powi (d - 1) * of_int q \<le> (2::rat) powi (d - 1) * 2 powi bitlen q"
      using bitlen_powi(2) [OF q] by (intro mult_left_mono) simp_all
    also have "\<dots> = 2 powi (bitlen p - 1)" by (simp add: d_def flip: power_int_add)
    also have "\<dots> \<le> of_int p" by (rule bitlen_powi(1) [OF p])
    finally show ?thesis unfolding x using qr by (simp add: pos_le_divide_eq)
  qed
  have b: "binade x = (if 2 powi d \<le> \<bar>x\<bar> then d else d - 1)"
    by (simp add: binade_def pq d_def Let_def)
  show "2 powi binade x \<le> \<bar>x\<bar>" using lo unfolding b by simp
  show "\<bar>x\<bar> < 2 powi (binade x + 1)" using up unfolding b by (simp add: not_le)
qed

lemma binade_le:
  assumes "x \<noteq> 0" "\<bar>x\<bar> < 2 powi (k + 1)"
  shows "binade x \<le> k"
proof -
  have "(2::rat) powi binade x < 2 powi (k + 1)"
    using binade_bounds(1) [OF assms(1)] assms(2) by linarith
  have "\<not> k + 1 \<le> binade x"
  proof
    assume "k + 1 \<le> binade x"
    then have "(2::rat) powi (k + 1) \<le> 2 powi binade x" by (rule power_int_increasing) simp
    then show False using \<open>(2::rat) powi binade x < 2 powi (k + 1)\<close> by simp
  qed
  then show ?thesis by simp
qed


lemma pow2_shift: "(2::rat) powi (int n + k) = 2 ^ n * 2 powi k"
  by (simp add: power_int_add)

lemma pow2_half: "1 / 2 * (2::rat) powi (m - 52) = 2 powi (m - 53)"
proof -
  have "(2::rat) powi (m - 52) = 2 powi (int 1 + (m - 53))" by (rule arg_cong [where f = "power_int 2"]) simp
  also have "\<dots> = 2 ^ 1 * 2 powi (m - 53)" by (rule pow2_shift)
  finally show ?thesis by simp
qed

lemma dbl_nonneg:
  assumes "0 \<le> x"
  shows "0 \<le> dbl x"
proof (cases "x = 0")
  case True
  then show ?thesis by (simp add: dbl_def)
next
  case False
  define u :: rat where "u = 2 powi (max (binade x) (- 1022) - 52)"
  have u: "0 < u" by (simp add: u_def)
  have "roundEven 0 \<le> roundEven (x / u)" using assms u by (intro roundEven_mono) simp
  then have "0 \<le> roundEven (x / u)" using roundEven_of_int [of 0] by simp
  then have "0 \<le> of_int (roundEven (x / u)) * u" using u by simp
  then show ?thesis using False by (simp add: dbl_def u_def Let_def)
qed

lemma dbl_nonpos:
  assumes "x \<le> 0"
  shows "dbl x \<le> 0"
proof (cases "x = 0")
  case True
  then show ?thesis by (simp add: dbl_def)
next
  case False
  define u :: rat where "u = 2 powi (max (binade x) (- 1022) - 52)"
  have u: "0 < u" by (simp add: u_def)
  have "x / u \<le> 0" using assms u by (simp add: divide_le_0_iff)
  then have "roundEven (x / u) \<le> roundEven 0" by (rule roundEven_mono)
  then have "roundEven (x / u) \<le> 0" using roundEven_of_int [of 0] by simp
  then have "of_int (roundEven (x / u)) * u \<le> 0" using u by (simp add: mult_le_0_iff)
  then show ?thesis using False by (simp add: dbl_def u_def Let_def)
qed

lemma dbl_error:
  assumes "\<bar>x\<bar> < 2 powi (k + 1)" "- 1022 \<le> k"
  shows "\<bar>dbl x - x\<bar> \<le> 2 powi (k - 53)"
proof (cases "x = 0")
  case True
  then show ?thesis by (simp add: dbl_def)
next
  case False
  define m where "m = max (binade x) (- 1022)"
  define u :: rat where "u = 2 powi (m - 52)"
  have u: "0 < u" by (simp add: u_def)
  have "binade x \<le> k" using False assms(1) by (rule binade_le)
  then have mk: "m \<le> k" using assms(2) by (simp add: m_def)
  have d: "dbl x = of_int (roundEven (x / u)) * u"
    using False by (simp add: dbl_def u_def m_def Let_def)
  have "dbl x - x = (of_int (roundEven (x / u)) - x / u) * u"
    unfolding d using u by (simp add: left_diff_distrib)
  then have "\<bar>dbl x - x\<bar> = \<bar>of_int (roundEven (x / u)) - x / u\<bar> * \<bar>u\<bar>"
    by (simp only: abs_mult)
  also have "\<dots> = \<bar>of_int (roundEven (x / u)) - x / u\<bar> * u" using u by simp
  finally have "\<bar>dbl x - x\<bar> = \<bar>of_int (roundEven (x / u)) - x / u\<bar> * u" .
  also have "\<dots> \<le> 1 / 2 * u"
    using roundEven_near [of "x / u"] u by (intro mult_right_mono) simp_all
  also have "\<dots> = 2 powi (m - 53)"
    unfolding u_def by (rule pow2_half)
  also have "\<dots> \<le> 2 powi (k - 53)" using mk by (intro power_int_increasing) simp_all
  finally show ?thesis .
qed

lemma dbl_mono_pos:
  assumes "0 < x" "x \<le> y"
  shows "dbl x \<le> dbl y"
proof -
  have x0: "x \<noteq> 0" and y0: "y \<noteq> 0" and ypos: "0 < y" using assms by simp_all
  define kx where "kx = max (binade x) (- 1022)"
  define ky where "ky = max (binade y) (- 1022)"
  define ux :: rat where "ux = 2 powi (kx - 52)"
  define uy :: rat where "uy = 2 powi (ky - 52)"
  have ux: "0 < ux" and uy: "0 < uy" by (simp_all add: ux_def uy_def)
  have dx: "dbl x = of_int (roundEven (x / ux)) * ux"
    using x0 by (simp add: dbl_def ux_def kx_def Let_def)
  have dy: "dbl y = of_int (roundEven (y / uy)) * uy"
    using y0 by (simp add: dbl_def uy_def ky_def Let_def)
  have "\<bar>x\<bar> < 2 powi (binade y + 1)"
    using binade_bounds(2) [OF y0] assms by simp
  then have bxy: "binade x \<le> binade y" using x0 by (intro binade_le)
  then have kxy: "kx \<le> ky" by (simp add: kx_def ky_def)
  show ?thesis
  proof (cases "kx = ky")
    case True
    then have same: "ux = uy" by (simp add: ux_def uy_def)
    have "x / uy \<le> y / uy" using assms(2) uy by (simp add: divide_right_mono)
    then have "roundEven (x / uy) \<le> roundEven (y / uy)" by (rule roundEven_mono)
    then have "(of_int (roundEven (x / uy)) :: rat) \<le> of_int (roundEven (y / uy))"
      by (simp only: of_int_le_iff)
    then show ?thesis unfolding dx dy same using uy by (intro mult_right_mono) simp_all
  next
    case False
    then have lt: "kx + 1 \<le> ky" using kxy by simp
    then have kyb: "ky = binade y" by (auto simp: kx_def ky_def)
    have "x < 2 powi (binade x + 1)" using binade_bounds(2) [OF x0] assms(1) by simp
    also have "\<dots> \<le> 2 powi (kx + 1)" by (intro power_int_increasing) (simp_all add: kx_def)
    finally have xlt: "x < 2 powi (kx + 1)" .
    have p53: "(2::rat) powi (kx + 1) = 2 ^ 53 * ux"
    proof -
      have "(2::rat) powi (kx + 1) = 2 powi (int 53 + (kx - 52))"
        by (rule arg_cong [where f = "power_int 2"]) simp
      also have "\<dots> = 2 ^ 53 * 2 powi (kx - 52)" by (rule pow2_shift)
      finally show ?thesis by (simp only: ux_def)
    qed
    have "x / ux \<le> of_int (2 ^ 53)" using xlt ux unfolding p53 by (simp add: pos_divide_le_eq)
    then have "roundEven (x / ux) \<le> roundEven (of_int (2 ^ 53))" by (rule roundEven_mono)
    then have "roundEven (x / ux) \<le> 2 ^ 53" by (simp only: roundEven_of_int)
    then have "(of_int (roundEven (x / ux)) :: rat) \<le> of_int (2 ^ 53)" by (simp only: of_int_le_iff)
    then have "dbl x \<le> of_int (2 ^ 53) * ux" unfolding dx using ux by (intro mult_right_mono) simp_all
    also have "\<dots> = 2 powi (kx + 1)" using p53 by simp
    also have "\<dots> \<le> 2 powi ky" using lt by (intro power_int_increasing) simp_all
    finally have a: "dbl x \<le> 2 powi ky" .
    have p52: "(2::rat) powi ky = 2 ^ 52 * uy"
    proof -
      have "(2::rat) powi ky = 2 powi (int 52 + (ky - 52))"
        by (rule arg_cong [where f = "power_int 2"]) simp
      also have "\<dots> = 2 ^ 52 * 2 powi (ky - 52)" by (rule pow2_shift)
      finally show ?thesis by (simp only: uy_def)
    qed
    have "2 powi ky \<le> y" using binade_bounds(1) [OF y0] ypos kyb by simp
    then have "of_int (2 ^ 52) \<le> y / uy" using uy unfolding p52 by (simp add: pos_le_divide_eq)
    then have "roundEven (of_int (2 ^ 52)) \<le> roundEven (y / uy)" by (rule roundEven_mono)
    then have "2 ^ 52 \<le> roundEven (y / uy)" by (simp only: roundEven_of_int)
    then have "(of_int (2 ^ 52) :: rat) \<le> of_int (roundEven (y / uy))" by (simp only: of_int_le_iff)
    then have "of_int (2 ^ 52) * uy \<le> dbl y" unfolding dy using uy by (intro mult_right_mono) simp_all
    then have b: "2 powi ky \<le> dbl y" using p52 by simp
    show ?thesis using a b by linarith
  qed
qed

lemma dbl_mono:
  assumes "0 \<le> x" "x \<le> y"
  shows "dbl x \<le> dbl y"
proof (cases "x = 0")
  case True
  have "0 \<le> dbl y" using assms by (intro dbl_nonneg) simp
  then show ?thesis using True by (simp add: dbl_def)
next
  case False
  then show ?thesis using assms by (intro dbl_mono_pos) simp_all
qed

lemma dbl_error_lt2:
  assumes "\<bar>x\<bar> < 2"
  shows "\<bar>dbl x - x\<bar> \<le> 1 / 2 ^ 53"
  using dbl_error [of x 0] assms by (simp add: power_int_minus_divide)

lemma dbl_error_lt1:
  assumes "\<bar>x\<bar> < 1"
  shows "\<bar>dbl x - x\<bar> \<le> 1 / 2 ^ 54"
  using dbl_error [of x "- 1"] assms by (simp add: power_int_minus_divide)

lemma dbl_error_lt16:
  assumes "\<bar>x\<bar> < 16"
  shows "\<bar>dbl x - x\<bar> \<le> 1 / 2 ^ 50"
  using dbl_error [of x 3] assms by (simp add: power_int_minus_divide)

lemma dbl_consts:
  "dbl 1 = 1" "dbl 9 = 9" "fsub 12 3 = 9"
  "dbl (35 / 100) = 3152519739159347 / 9007199254740992"
  "dbl (20 / 100) = 3602879701896397 / 18014398509481984"
  "dbl (15 / 100) = 5404319552844595 / 36028797018963968"
  "dbl (10 / 100) = 3602879701896397 / 36028797018963968"
  "dbl (34 / 100) < dbl (35 / 100)" "dbl (64 / 100) < dbl (65 / 100)"
  by (code_simp+)


section \<open>Properties of the scorer\<close>

lemma clamp_unit: "0 \<le> clamp v 0 1 \<and> clamp v 0 1 \<le> 1"
  by (simp add: clamp_def)

lemma dbl_near2:
  assumes "- 2 < x" "x < 2"
  shows "x - 1 / 2 ^ 53 \<le> dbl x" and "dbl x \<le> x + 1 / 2 ^ 53"
proof -
  have "\<bar>dbl x - x\<bar> \<le> 1 / 2 ^ 53" using assms by (intro dbl_error_lt2) simp
  then show "x - 1 / 2 ^ 53 \<le> dbl x" and "dbl x \<le> x + 1 / 2 ^ 53" by linarith+
qed

text \<open>A clamped rounded quotient is the clamped exact quotient up to one rounding.\<close>

lemma clamp_dbl_near:
  "\<bar>clamp (dbl y) 0 1 - max 0 (min 1 y)\<bar> \<le> 1 / 2 ^ 53"
proof -
  consider "y \<le> 0" | "1 \<le> y" | "0 < y" "y < 1" by linarith
  then show ?thesis
  proof cases
    case 1
    then have "dbl y \<le> 0" by (rule dbl_nonpos)
    then show ?thesis using 1 by (simp add: clamp_def)
  next
    case 2
    have "dbl 1 \<le> dbl y" using 2 by (intro dbl_mono) simp_all
    then have "1 \<le> dbl y" by (simp add: dbl_consts)
    then show ?thesis using 2 by (simp add: clamp_def)
  next
    case 3
    have lo: "0 \<le> dbl y" using 3 by (intro dbl_nonneg) simp
    have "dbl y \<le> dbl 1" using 3 by (intro dbl_mono) simp_all
    then have hi: "dbl y \<le> 1" by (simp add: dbl_consts)
    have "\<bar>dbl y - y\<bar> \<le> 1 / 2 ^ 54" using 3 by (intro dbl_error_lt1) simp
    then have "\<bar>dbl y - y\<bar> \<le> 1 / 2 ^ 53" by simp
    then show ?thesis using 3 lo hi by (simp add: clamp_def)
  qed
qed

text \<open>The latency component has two roundings, of the difference and of the quotient.\<close>

lemma clamp_latency_near:
  "\<bar>clamp (dbl (dbl a / 9)) 0 1 - max 0 (min 1 (a / 9))\<bar> \<le> 1 / 2 ^ 52"
proof -
  consider "a \<le> 0" | "9 \<le> a" | "0 < a" "a < 9" by linarith
  then show ?thesis
  proof cases
    case 1
    then have "dbl a \<le> 0" by (rule dbl_nonpos)
    then have "dbl a / 9 \<le> 0" by simp
    then have "dbl (dbl a / 9) \<le> 0" by (rule dbl_nonpos)
    then show ?thesis using 1 by (simp add: clamp_def)
  next
    case 2
    have "dbl 9 \<le> dbl a" using 2 by (intro dbl_mono) simp_all
    then have "1 \<le> dbl a / 9" by (simp add: dbl_consts)
    then have "dbl 1 \<le> dbl (dbl a / 9)" by (intro dbl_mono) simp_all
    then have "1 \<le> dbl (dbl a / 9)" by (simp add: dbl_consts)
    then show ?thesis using 2 by (simp add: clamp_def)
  next
    case 3
    have a0: "0 \<le> dbl a" using 3 by (intro dbl_nonneg) simp
    have "dbl a \<le> dbl 9" using 3 by (intro dbl_mono) simp_all
    then have a9: "dbl a \<le> 9" by (simp add: dbl_consts)
    have ea: "\<bar>dbl a - a\<bar> \<le> 1 / 2 ^ 50" using 3 by (intro dbl_error_lt16) simp
    define b where "b = dbl a / 9"
    have b0: "0 \<le> b" and b1: "b \<le> 1" using a0 a9 by (simp_all add: b_def)
    have lo: "0 \<le> dbl b" using b0 by (rule dbl_nonneg)
    have "dbl b \<le> dbl 1" using b0 b1 by (intro dbl_mono)
    then have hi: "dbl b \<le> 1" by (simp add: dbl_consts)
    have eb: "\<bar>dbl b - b\<bar> \<le> 1 / 2 ^ 53" using b0 b1 by (intro dbl_error_lt2) simp
    have "\<bar>b - a / 9\<bar> = \<bar>dbl a - a\<bar> / 9" by (simp add: b_def diff_divide_distrib [symmetric])
    then have eq: "\<bar>b - a / 9\<bar> \<le> 1 / 2 ^ 50 / 9" using ea by simp
    have "\<bar>dbl b - a / 9\<bar> \<le> \<bar>dbl b - b\<bar> + \<bar>b - a / 9\<bar>" by linarith
    also have "\<dots> \<le> 1 / 2 ^ 53 + 1 / 2 ^ 50 / 9" using eb eq by (rule add_mono)
    also have "\<dots> \<le> 1 / 2 ^ 52" by simp
    finally have "\<bar>dbl b - a / 9\<bar> \<le> 1 / 2 ^ 52" .
    then show ?thesis using 3 lo hi by (simp add: clamp_def b_def)
  qed
qed

text \<open>The exact weighted sum of five components.\<close>

lemma weighted_near:
  assumes "0 \<le> comp_e c" "comp_e c \<le> 1" "0 \<le> comp_h c" "comp_h c \<le> 1"
    and "0 \<le> comp_r c" "comp_r c \<le> 1" "0 \<le> comp_t c" "comp_t c \<le> 1"
    and "0 \<le> comp_s c" "comp_s c \<le> 1"
  shows "\<bar>weighted c - (35 / 100 * comp_e c + 20 / 100 * comp_h c + 15 / 100 * comp_r c
            + 20 / 100 * comp_t c + 10 / 100 * comp_s c)\<bar> \<le> 1 / 2 ^ 49"
    and "0 \<le> weighted c"
proof -
  define me where "me = fmul (dbl (35 / 100)) (comp_e c)"
  define mh where "mh = fmul (dbl (20 / 100)) (comp_h c)"
  define mr where "mr = fmul (dbl (15 / 100)) (comp_r c)"
  define mt where "mt = fmul (dbl (20 / 100)) (comp_t c)"
  define ms where "ms = fmul (dbl (10 / 100)) (comp_s c)"
  define s1 where "s1 = fadd me mh"
  define s2 where "s2 = fadd s1 mr"
  define s3 where "s3 = fadd s2 mt"
  define s4 where "s4 = fadd s3 ms"
  have w: "weighted c = s4"
    by (simp add: weighted_def s4_def s3_def s2_def s1_def me_def mh_def mr_def mt_def ms_def)
  have me: "me = dbl (3152519739159347 / 9007199254740992 * comp_e c)"
    and mh: "mh = dbl (3602879701896397 / 18014398509481984 * comp_h c)"
    and mr: "mr = dbl (5404319552844595 / 36028797018963968 * comp_r c)"
    and mt: "mt = dbl (3602879701896397 / 18014398509481984 * comp_t c)"
    and ms: "ms = dbl (3602879701896397 / 36028797018963968 * comp_s c)"
    by (simp_all only: me_def mh_def mr_def mt_def ms_def fmul_def dbl_consts)
  note e = dbl_near2 [of "3152519739159347 / 9007199254740992 * comp_e c", folded me]
  note h = dbl_near2 [of "3602879701896397 / 18014398509481984 * comp_h c", folded mh]
  note r = dbl_near2 [of "5404319552844595 / 36028797018963968 * comp_r c", folded mr]
  note t = dbl_near2 [of "3602879701896397 / 18014398509481984 * comp_t c", folded mt]
  note s = dbl_near2 [of "3602879701896397 / 36028797018963968 * comp_s c", folded ms]
  have e1: "3152519739159347 / 9007199254740992 * comp_e c - 1 / 2 ^ 53 \<le> me"
    and e2: "me \<le> 3152519739159347 / 9007199254740992 * comp_e c + 1 / 2 ^ 53"
    using assms(1,2) by (intro e; simp)+
  have h1: "3602879701896397 / 18014398509481984 * comp_h c - 1 / 2 ^ 53 \<le> mh"
    and h2: "mh \<le> 3602879701896397 / 18014398509481984 * comp_h c + 1 / 2 ^ 53"
    using assms(3,4) by (intro h; simp)+
  have r1: "5404319552844595 / 36028797018963968 * comp_r c - 1 / 2 ^ 53 \<le> mr"
    and r2: "mr \<le> 5404319552844595 / 36028797018963968 * comp_r c + 1 / 2 ^ 53"
    using assms(5,6) by (intro r; simp)+
  have t1: "3602879701896397 / 18014398509481984 * comp_t c - 1 / 2 ^ 53 \<le> mt"
    and t2: "mt \<le> 3602879701896397 / 18014398509481984 * comp_t c + 1 / 2 ^ 53"
    using assms(7,8) by (intro t; simp)+
  have s1': "3602879701896397 / 36028797018963968 * comp_s c - 1 / 2 ^ 53 \<le> ms"
    and s2': "ms \<le> 3602879701896397 / 36028797018963968 * comp_s c + 1 / 2 ^ 53"
    using assms(9,10) by (intro s; simp)+
  have me0: "0 \<le> me" unfolding me using assms(1) by (intro dbl_nonneg) simp
  have mh0: "0 \<le> mh" unfolding mh using assms(3) by (intro dbl_nonneg) simp
  have mr0: "0 \<le> mr" unfolding mr using assms(5) by (intro dbl_nonneg) simp
  have mt0: "0 \<le> mt" unfolding mt using assms(7) by (intro dbl_nonneg) simp
  have ms0: "0 \<le> ms" unfolding ms using assms(9) by (intro dbl_nonneg) simp
  have a1: "me + mh - 1 / 2 ^ 53 \<le> s1" and a2: "s1 \<le> me + mh + 1 / 2 ^ 53"
    unfolding s1_def fadd_def using assms(1-4) e2 h2 me0 mh0 by (intro dbl_near2; simp)+
  have s10: "0 \<le> s1" unfolding s1_def fadd_def using me0 mh0 by (intro dbl_nonneg) simp
  have b1: "s1 + mr - 1 / 2 ^ 53 \<le> s2" and b2: "s2 \<le> s1 + mr + 1 / 2 ^ 53"
    unfolding s2_def fadd_def using assms(1-6) e2 h2 r2 a2 s10 mr0 by (intro dbl_near2; simp)+
  have s20: "0 \<le> s2" unfolding s2_def fadd_def using s10 mr0 by (intro dbl_nonneg) simp
  have c1: "s2 + mt - 1 / 2 ^ 53 \<le> s3" and c2: "s3 \<le> s2 + mt + 1 / 2 ^ 53"
    unfolding s3_def fadd_def using assms(1-8) e2 h2 r2 t2 a2 b2 s20 mt0 by (intro dbl_near2; simp)+
  have s30: "0 \<le> s3" unfolding s3_def fadd_def using s20 mt0 by (intro dbl_nonneg) simp
  have d1: "s3 + ms - 1 / 2 ^ 53 \<le> s4" and d2: "s4 \<le> s3 + ms + 1 / 2 ^ 53"
    unfolding s4_def fadd_def using assms e2 h2 r2 t2 s2' a2 b2 c2 s30 ms0
    by (intro dbl_near2; simp)+
  show "0 \<le> weighted c" unfolding w s4_def fadd_def using s30 ms0 by (intro dbl_nonneg) simp
  have up: "s4 \<le> 35 / 100 * comp_e c + 20 / 100 * comp_h c + 15 / 100 * comp_r c
            + 20 / 100 * comp_t c + 10 / 100 * comp_s c + 1 / 2 ^ 49"
    using assms e2 h2 r2 t2 s2' a2 b2 c2 d2 by simp
  have lo: "35 / 100 * comp_e c + 20 / 100 * comp_h c + 15 / 100 * comp_r c
            + 20 / 100 * comp_t c + 10 / 100 * comp_s c - 1 / 2 ^ 49 \<le> s4"
    using assms e1 h1 r1 t1 s1' a1 b1 c1 d1 by simp
  show "\<bar>weighted c - (35 / 100 * comp_e c + 20 / 100 * comp_h c + 15 / 100 * comp_r c
            + 20 / 100 * comp_t c + 10 / 100 * comp_s c)\<bar> \<le> 1 / 2 ^ 49"
    unfolding w using up lo by linarith
qed


lemma dbl_zero: "dbl 0 = 0"
  by (simp add: dbl_def)

lemma toFixed2_small:
  assumes "0 \<le> x" "x \<le> 2"
  shows "toFixed2 x = of_int \<lfloor>100 * x + 1 / 2\<rfloor> / 100"
proof -
  have "\<not> \<bar>x\<bar> \<ge> 10 ^ 21" using assms by simp
  then show ?thesis using assms(1) by (simp add: toFixed2_def mult.commute)
qed

lemma toFixed2_near:
  assumes "0 \<le> x" "x \<le> 2"
  shows "\<bar>toFixed2 x - x\<bar> \<le> 1 / 200"
proof -
  have a: "of_int \<lfloor>100 * x + 1 / 2\<rfloor> \<le> 100 * x + 1 / 2" by (rule of_int_floor_le)
  have b: "100 * x + 1 / 2 < of_int \<lfloor>100 * x + 1 / 2\<rfloor> + 1" by linarith
  have "\<bar>of_int \<lfloor>100 * x + 1 / 2\<rfloor> / 100 - x\<bar> \<le> 1 / 200" using a b by linarith
  then show ?thesis by (simp only: toFixed2_small [OF assms])
qed

lemma toFixed2_le_hundredths:
  assumes "0 \<le> x" "100 * x + 1 / 2 < of_int (k + 1)" "x \<le> 2"
  shows "toFixed2 x \<le> of_int k / 100"
proof -
  have "\<lfloor>100 * x + 1 / 2\<rfloor> < k + 1" using assms(2) by (simp only: floor_less_iff)
  then have "\<lfloor>100 * x + 1 / 2\<rfloor> \<le> k" by simp
  then have "(of_int \<lfloor>100 * x + 1 / 2\<rfloor> :: rat) \<le> of_int k" by (simp only: of_int_le_iff)
  then have "(of_int \<lfloor>100 * x + 1 / 2\<rfloor> :: rat) / 100 \<le> of_int k / 100"
    by (simp add: divide_right_mono)
  then show ?thesis by (simp only: toFixed2_small [OF assms(1,3)])
qed

lemma toFixed2_nonneg:
  assumes "0 \<le> x" "x \<le> 2"
  shows "0 \<le> toFixed2 x"
proof -
  have "0 \<le> \<lfloor>100 * x + 1 / 2\<rfloor>" using assms(1) by simp
  then have "0 \<le> (of_int \<lfloor>100 * x + 1 / 2\<rfloor> :: rat) / 100" by simp
  then show ?thesis by (simp only: toFixed2_small [OF assms])
qed

text \<open>
  The comparisons of the policy on a two-decimal value: on the doubles that \<open>Number\<close>
  reads they come out as on the decimals.
\<close>

lemma hundredths_compare:
  fixes k :: int
  assumes "0 \<le> k"
  shows "dbl (of_int k / 100) < dbl (35 / 100) \<longleftrightarrow> (of_int k / 100 :: rat) < 35 / 100"
    and "dbl (of_int k / 100) < dbl (65 / 100) \<longleftrightarrow> (of_int k / 100 :: rat) < 65 / 100"
proof -
  have pos: "(0::rat) \<le> of_int k / 100" using assms by simp
  have *: "dbl (of_int k / 100) < dbl (of_int n / 100) \<longleftrightarrow> (of_int k / 100 :: rat) < of_int n / 100"
    if n: "0 < n" and st: "dbl (of_int (n - 1) / 100) < dbl (of_int n / 100)" for n :: int
  proof (cases "k < n")
    case True
    then have "k \<le> n - 1" by simp
    then have "(of_int k :: rat) \<le> of_int (n - 1)" by (simp only: of_int_le_iff)
    then have "(of_int k / 100 :: rat) \<le> of_int (n - 1) / 100" by (simp add: divide_right_mono)
    then have "dbl (of_int k / 100) \<le> dbl (of_int (n - 1) / 100)" using pos by (intro dbl_mono)
    then have "dbl (of_int k / 100) < dbl (of_int n / 100)" using st by simp
    then show ?thesis using True by simp
  next
    case False
    then have "n \<le> k" by simp
    then have "(of_int n :: rat) \<le> of_int k" by (simp only: of_int_le_iff)
    then have le: "(of_int n / 100 :: rat) \<le> of_int k / 100" by (simp add: divide_right_mono)
    have "(0::rat) \<le> of_int n / 100" using n by simp
    then have "dbl (of_int n / 100) \<le> dbl (of_int k / 100)" using le by (intro dbl_mono)
    then show ?thesis using le by simp
  qed
  show "dbl (of_int k / 100) < dbl (35 / 100) \<longleftrightarrow> (of_int k / 100 :: rat) < 35 / 100"
    using * [of 35] dbl_consts(8) by simp
  show "dbl (of_int k / 100) < dbl (65 / 100) \<longleftrightarrow> (of_int k / 100 :: rat) < 65 / 100"
    using * [of 65] dbl_consts(9) by simp
qed

lemma computeFrustration_unfold:
  "components (computeFrustration params) =
     \<lparr>comp_e = clamp (dbl (p_errorsConsecutive params / 3)) 0 1,
      comp_h = clamp (dbl (p_hintsUsed params / 2)) 0 1,
      comp_r = clamp (dbl (p_retriesSameRound params / 2)) 0 1,
      comp_t = clamp (dbl (dbl (p_latencySec params - 3) / 9)) 0 1,
      comp_s = clamp (dbl (p_perseveration params / 2)) 0 1\<rparr>"
  "fvalue (computeFrustration params) = toFixed2 (weighted (components (computeFrustration params)))"
  by (simp_all add: computeFrustration_def Let_def fdiv_def fsub_def dbl_consts [unfolded fsub_def])

lemma computeFrustration_facts:
  fixes params :: FrustrationParams
  defines "fr \<equiv> computeFrustration params"
  defines "c \<equiv> components fr"
  defines "W \<equiv> 35 / 100 * comp_e c + 20 / 100 * comp_h c + 15 / 100 * comp_r c
                 + 20 / 100 * comp_t c + 10 / 100 * comp_s c"
  shows "0 \<le> comp_e c \<and> comp_e c \<le> 1" "0 \<le> comp_h c \<and> comp_h c \<le> 1"
    "0 \<le> comp_r c \<and> comp_r c \<le> 1" "0 \<le> comp_t c \<and> comp_t c \<le> 1"
    "0 \<le> comp_s c \<and> comp_s c \<le> 1"
    "fvalue fr = of_int \<lfloor>100 * weighted c + 1 / 2\<rfloor> / 100"
    "\<bar>weighted c - W\<bar> \<le> 1 / 2 ^ 49"
    "\<bar>fvalue fr - weighted c\<bar> \<le> 1 / 200"
    "0 \<le> weighted c" "weighted c \<le> W + 1 / 2 ^ 49"
    "0 \<le> fvalue fr \<and> fvalue fr \<le> 1"
proof -
  show be: "0 \<le> comp_e c \<and> comp_e c \<le> 1" and bh: "0 \<le> comp_h c \<and> comp_h c \<le> 1"
    and br: "0 \<le> comp_r c \<and> comp_r c \<le> 1" and bt: "0 \<le> comp_t c \<and> comp_t c \<le> 1"
    and bs: "0 \<le> comp_s c \<and> comp_s c \<le> 1"
    unfolding c_def fr_def computeFrustration_unfold by (simp_all add: clamp_unit)
  have near: "\<bar>weighted c - W\<bar> \<le> 1 / 2 ^ 49" and w0: "0 \<le> weighted c"
    unfolding W_def using be bh br bt bs by (intro weighted_near; simp)+
  show "\<bar>weighted c - W\<bar> \<le> 1 / 2 ^ 49" by (rule near)
  show "0 \<le> weighted c" by (rule w0)
  have W1: "W \<le> 1" unfolding W_def using be bh br bt bs by simp
  show wu: "weighted c \<le> W + 1 / 2 ^ 49" using near by linarith
  have w2: "weighted c \<le> 2" using wu W1 by simp
  have v: "fvalue fr = toFixed2 (weighted c)"
    unfolding c_def fr_def by (rule computeFrustration_unfold)
  show "fvalue fr = of_int \<lfloor>100 * weighted c + 1 / 2\<rfloor> / 100"
    unfolding v by (rule toFixed2_small [OF w0 w2])
  show "\<bar>fvalue fr - weighted c\<bar> \<le> 1 / 200" unfolding v by (rule toFixed2_near [OF w0 w2])
  have "100 * weighted c + 1 / 2 < of_int (100 + 1)" using wu W1 by simp
  then have "toFixed2 (weighted c) \<le> of_int 100 / 100"
    using w0 w2 by (intro toFixed2_le_hundredths)
  then show "0 \<le> fvalue fr \<and> fvalue fr \<le> 1"
    unfolding v using toFixed2_nonneg [OF w0 w2] by simp
qed


text \<open>
  C1. For every signal tuple the scorer returns the five components as the code computes
  them, the quotients \<open>errors/3\<close>, \<open>hints/2\<close>, \<open>retries/2\<close>, \<open>(latency - 3)/9\<close> and
  \<open>perseveration/2\<close> rounded to doubles and clamped to \<open>[0,1]\<close>; each is the clamped
  exact quotient up to that rounding. The value is the weighted sum \<open>weighted\<close> of the
  components, computed in doubles, rounded to two decimals: a whole number of hundredths,
  which is the composite \<open>0.35 e + 0.20 h + 0.15 r + 0.20 t + 0.10 s\<close> of the exact clamped
  quotients up to \<open>0.005\<close> and the rounding of the doubles. Every component and the value
  lie in \<open>[0,1]\<close>.
\<close>

theorem computeFrustration_components_and_value:
  fixes params :: FrustrationParams
  defines "fr \<equiv> computeFrustration params"
  defines "c \<equiv> components fr"
  defines "xe \<equiv> max 0 (min 1 (p_errorsConsecutive params / 3))"
  defines "xh \<equiv> max 0 (min 1 (p_hintsUsed params / 2))"
  defines "xr \<equiv> max 0 (min 1 (p_retriesSameRound params / 2))"
  defines "xt \<equiv> max 0 (min 1 ((p_latencySec params - 3) / 9))"
  defines "xs \<equiv> max 0 (min 1 (p_perseveration params / 2))"
  shows "comp_e c = max 0 (min 1 (dbl (p_errorsConsecutive params / 3)))
       \<and> comp_h c = max 0 (min 1 (dbl (p_hintsUsed params / 2)))
       \<and> comp_r c = max 0 (min 1 (dbl (p_retriesSameRound params / 2)))
       \<and> comp_t c = max 0 (min 1 (dbl (dbl (p_latencySec params - 3) / 9)))
       \<and> comp_s c = max 0 (min 1 (dbl (p_perseveration params / 2)))
       \<and> \<bar>comp_e c - xe\<bar> \<le> 1 / 2 ^ 53
       \<and> \<bar>comp_h c - xh\<bar> \<le> 1 / 2 ^ 53
       \<and> \<bar>comp_r c - xr\<bar> \<le> 1 / 2 ^ 53
       \<and> \<bar>comp_t c - xt\<bar> \<le> 1 / 2 ^ 52
       \<and> \<bar>comp_s c - xs\<bar> \<le> 1 / 2 ^ 53
       \<and> fvalue fr = of_int \<lfloor>100 * weighted c + 1 / 2\<rfloor> / 100
       \<and> \<bar>weighted c - (35 / 100 * comp_e c + 20 / 100 * comp_h c + 15 / 100 * comp_r c
              + 20 / 100 * comp_t c + 10 / 100 * comp_s c)\<bar> \<le> 1 / 2 ^ 49
       \<and> \<bar>fvalue fr - (35 / 100 * xe + 20 / 100 * xh + 15 / 100 * xr + 20 / 100 * xt
              + 10 / 100 * xs)\<bar> \<le> 1 / 200 + 1 / 2 ^ 48
       \<and> (0 \<le> comp_e c \<and> comp_e c \<le> 1)
       \<and> (0 \<le> comp_h c \<and> comp_h c \<le> 1)
       \<and> (0 \<le> comp_r c \<and> comp_r c \<le> 1)
       \<and> (0 \<le> comp_t c \<and> comp_t c \<le> 1)
       \<and> (0 \<le> comp_s c \<and> comp_s c \<le> 1)
       \<and> (0 \<le> fvalue fr \<and> fvalue fr \<le> 1)"
proof -
  note f = computeFrustration_facts [of params, folded fr_def c_def]
  have ce: "comp_e c = clamp (dbl (p_errorsConsecutive params / 3)) 0 1"
    and ch: "comp_h c = clamp (dbl (p_hintsUsed params / 2)) 0 1"
    and cr: "comp_r c = clamp (dbl (p_retriesSameRound params / 2)) 0 1"
    and ct: "comp_t c = clamp (dbl (dbl (p_latencySec params - 3) / 9)) 0 1"
    and cs: "comp_s c = clamp (dbl (p_perseveration params / 2)) 0 1"
    unfolding c_def fr_def computeFrustration_unfold by simp_all
  have code: "comp_e c = max 0 (min 1 (dbl (p_errorsConsecutive params / 3)))
       \<and> comp_h c = max 0 (min 1 (dbl (p_hintsUsed params / 2)))
       \<and> comp_r c = max 0 (min 1 (dbl (p_retriesSameRound params / 2)))
       \<and> comp_t c = max 0 (min 1 (dbl (dbl (p_latencySec params - 3) / 9)))
       \<and> comp_s c = max 0 (min 1 (dbl (p_perseveration params / 2)))"
    unfolding ce ch cr ct cs by (simp add: clamp_def)
  have ne: "\<bar>comp_e c - xe\<bar> \<le> 1 / 2 ^ 53" unfolding ce xe_def by (rule clamp_dbl_near)
  have nh: "\<bar>comp_h c - xh\<bar> \<le> 1 / 2 ^ 53" unfolding ch xh_def by (rule clamp_dbl_near)
  have nr: "\<bar>comp_r c - xr\<bar> \<le> 1 / 2 ^ 53" unfolding cr xr_def by (rule clamp_dbl_near)
  have nt: "\<bar>comp_t c - xt\<bar> \<le> 1 / 2 ^ 52" unfolding ct xt_def by (rule clamp_latency_near)
  have ns: "\<bar>comp_s c - xs\<bar> \<le> 1 / 2 ^ 53" unfolding cs xs_def by (rule clamp_dbl_near)
  define \<delta> :: rat where "\<delta> = 1 / 2 ^ 52"
  have w: "(1::rat) / 2 ^ 53 \<le> \<delta>" by (simp add: \<delta>_def)
  have e2: "comp_e c - xe \<le> \<delta>" "xe - comp_e c \<le> \<delta>" using ne w by linarith+
  have h2: "comp_h c - xh \<le> \<delta>" "xh - comp_h c \<le> \<delta>" using nh w by linarith+
  have r2: "comp_r c - xr \<le> \<delta>" "xr - comp_r c \<le> \<delta>" using nr w by linarith+
  have t2: "comp_t c - xt \<le> \<delta>" "xt - comp_t c \<le> \<delta>" using nt unfolding \<delta>_def by linarith+
  have s2: "comp_s c - xs \<le> \<delta>" "xs - comp_s c \<le> \<delta>" using ns w by linarith+
  define W where "W = 35 / 100 * comp_e c + 20 / 100 * comp_h c + 15 / 100 * comp_r c
                 + 20 / 100 * comp_t c + 10 / 100 * comp_s c"
  define F where "F = 35 / 100 * xe + 20 / 100 * xh + 15 / 100 * xr + 20 / 100 * xt + 10 / 100 * xs"
  have wf: "W - F \<le> \<delta>" "F - W \<le> \<delta>"
    unfolding W_def F_def using e2 h2 r2 t2 s2 by linarith+
  define \<epsilon> :: rat where "\<epsilon> = 1 / 2 ^ 49"
  have ww: "weighted c - W \<le> \<epsilon>" "W - weighted c \<le> \<epsilon>"
    using f(7) unfolding W_def \<epsilon>_def by linarith+
  have vw: "fvalue fr - weighted c \<le> 1 / 200" "weighted c - fvalue fr \<le> 1 / 200"
    using f(8) by linarith+
  have sum: "\<epsilon> + \<delta> \<le> 1 / 2 ^ 48" by (simp add: \<epsilon>_def \<delta>_def)
  have tot: "\<bar>fvalue fr - F\<bar> \<le> 1 / 200 + 1 / 2 ^ 48" using wf ww vw sum by linarith
  show ?thesis
    using code ne nh nr nt ns f(6) f(7) tot [unfolded F_def] f(1-5) f(11) by blast
qed

section \<open>Properties of the local policy\<close>

lemma nextLevel_table:
  "nextLevel easy down = easy" "nextLevel medium down = easy" "nextLevel hard down = medium"
  "nextLevel easy up = medium" "nextLevel medium up = hard" "nextLevel hard up = hard"
  by (simp_all add: nextLevel_def)

text \<open>
  C2. The local policy resolves \<open>keep\<close> when \<open>F < 0.35\<close>, \<open>support\<close> when
  \<open>0.35 \<le> F < 0.65\<close>, and for \<open>F \<ge> 0.65\<close> it resolves \<open>ease\<close> when the incremented
  high-frustration streak \<open>h + 1\<close> is at least 2 and \<open>support\<close> otherwise.
\<close>

theorem fallbackPolicy_action:
  fixes fr :: Frustration and lvl :: Level and h s :: rat and corr :: bool
  defines "F \<equiv> fvalue fr"
  defines "D \<equiv> fallbackPolicy fr lvl h s corr"
  shows "(F < 35 / 100 \<longrightarrow> d_action D = keep)
       \<and> (35 / 100 \<le> F \<and> F < 65 / 100 \<longrightarrow> d_action D = support)
       \<and> (65 / 100 \<le> F \<and> h + 1 \<ge> 2 \<longrightarrow> d_action D = ease)
       \<and> (65 / 100 \<le> F \<and> \<not> h + 1 \<ge> 2 \<longrightarrow> d_action D = support)"
  unfolding F_def D_def by (simp add: fallbackPolicy_def Let_def)

theorem fallbackPolicy_action_witness:
  "d_action (fallbackPolicy \<lparr>fvalue = 20 / 100, components = \<lparr>comp_e = 0, comp_h = 1, comp_r = 0, comp_t = 0, comp_s = 0\<rparr>\<rparr> medium 1 0 True) = keep
 \<and> d_action (fallbackPolicy \<lparr>fvalue = 50 / 100, components = \<lparr>comp_e = 1, comp_h = 0, comp_r = 1, comp_t = 0, comp_s = 0\<rparr>\<rparr> medium 1 0 False) = support
 \<and> d_action (fallbackPolicy \<lparr>fvalue = 1, components = \<lparr>comp_e = 1, comp_h = 1, comp_r = 1, comp_t = 1, comp_s = 1\<rparr>\<rparr> medium 1 0 False) = ease
 \<and> d_action (fallbackPolicy \<lparr>fvalue = 1, components = \<lparr>comp_e = 1, comp_h = 1, comp_r = 1, comp_t = 1, comp_s = 1\<rparr>\<rparr> medium 0 0 False) = support"
  using
    fallbackPolicy_action [of "\<lparr>fvalue = 20 / 100, components = \<lparr>comp_e = 0, comp_h = 1, comp_r = 0, comp_t = 0, comp_s = 0\<rparr>\<rparr>" medium 1 0 True]
    fallbackPolicy_action [of "\<lparr>fvalue = 50 / 100, components = \<lparr>comp_e = 1, comp_h = 0, comp_r = 1, comp_t = 0, comp_s = 0\<rparr>\<rparr>" medium 1 0 False]
    fallbackPolicy_action [of "\<lparr>fvalue = 1, components = \<lparr>comp_e = 1, comp_h = 1, comp_r = 1, comp_t = 1, comp_s = 1\<rparr>\<rparr>" medium 1 0 False]
    fallbackPolicy_action [of "\<lparr>fvalue = 1, components = \<lparr>comp_e = 1, comp_h = 1, comp_r = 1, comp_t = 1, comp_s = 1\<rparr>\<rparr>" medium 0 0 False]
  by simp


text \<open>
  C3. The returned \<open>nextHighFrustrationStreak\<close> is 0 whenever \<open>F < 0.65\<close> or the resolved
  action is \<open>ease\<close>, and is the previous streak plus 1 whenever \<open>F \<ge> 0.65\<close> and the action
  is not \<open>ease\<close>.
\<close>

theorem fallbackPolicy_nextHighFrustrationStreak:
  fixes fr :: Frustration and lvl :: Level and h s :: rat and corr :: bool
  defines "F \<equiv> fvalue fr"
  defines "D \<equiv> fallbackPolicy fr lvl h s corr"
  shows "(F < 65 / 100 \<or> d_action D = ease \<longrightarrow> nextHighFrustrationStreak D = 0)
       \<and> (65 / 100 \<le> F \<and> d_action D \<noteq> ease \<longrightarrow> nextHighFrustrationStreak D = h + 1)"
  unfolding F_def D_def by (simp add: fallbackPolicy_def Let_def)

theorem fallbackPolicy_nextHighFrustrationStreak_witness:
  "nextHighFrustrationStreak (fallbackPolicy \<lparr>fvalue = 50 / 100, components = \<lparr>comp_e = 1, comp_h = 0, comp_r = 1, comp_t = 0, comp_s = 0\<rparr>\<rparr> medium 1 0 False) = 0
 \<and> d_action (fallbackPolicy \<lparr>fvalue = 1, components = \<lparr>comp_e = 1, comp_h = 1, comp_r = 1, comp_t = 1, comp_s = 1\<rparr>\<rparr> medium 1 0 False) = ease
 \<and> nextHighFrustrationStreak (fallbackPolicy \<lparr>fvalue = 1, components = \<lparr>comp_e = 1, comp_h = 1, comp_r = 1, comp_t = 1, comp_s = 1\<rparr>\<rparr> medium 1 0 False) = 0
 \<and> d_action (fallbackPolicy \<lparr>fvalue = 1, components = \<lparr>comp_e = 1, comp_h = 1, comp_r = 1, comp_t = 1, comp_s = 1\<rparr>\<rparr> medium 0 0 False) \<noteq> ease
 \<and> nextHighFrustrationStreak (fallbackPolicy \<lparr>fvalue = 1, components = \<lparr>comp_e = 1, comp_h = 1, comp_r = 1, comp_t = 1, comp_s = 1\<rparr>\<rparr> medium 0 0 False) = 0 + 1"
proof -
  let ?c = "\<lparr>comp_e = 1, comp_h = 1, comp_r = 1, comp_t = 1, comp_s = 1\<rparr>"
  have a: "d_action (fallbackPolicy \<lparr>fvalue = 1, components = ?c\<rparr> medium 1 0 False) = ease"
    by (simp add: fallbackPolicy_def Let_def)
  have b: "d_action (fallbackPolicy \<lparr>fvalue = 1, components = ?c\<rparr> medium 0 0 False) \<noteq> ease"
    by (simp add: fallbackPolicy_def Let_def)
  show ?thesis
    using a b
      fallbackPolicy_nextHighFrustrationStreak [of "\<lparr>fvalue = 50 / 100, components = \<lparr>comp_e = 1, comp_h = 0, comp_r = 1, comp_t = 0, comp_s = 0\<rparr>\<rparr>" medium 1 0 False]
      fallbackPolicy_nextHighFrustrationStreak [of "\<lparr>fvalue = 1, components = ?c\<rparr>" medium 1 0 False]
      fallbackPolicy_nextHighFrustrationStreak [of "\<lparr>fvalue = 1, components = ?c\<rparr>" medium 0 0 False]
    by simp
qed


text \<open>
  C4. With the candidate success streak \<open>s + 1\<close> on a correct pick and \<open>0\<close> on an incorrect
  one: on \<open>ease\<close> the suggested level is one step down (\<open>easy\<close> stays \<open>easy\<close>) and the next
  success streak is 0; otherwise a candidate of at least 3 gives one step up (\<open>hard\<close> stays
  \<open>hard\<close>) and a next success streak of 0; otherwise the level is unchanged and the next
  success streak is the candidate.
\<close>

theorem fallbackPolicy_level_and_successStreak:
  fixes fr :: Frustration and lvl :: Level and h s :: rat and corr :: bool
  defines "D \<equiv> fallbackPolicy fr lvl h s corr"
  defines "cand \<equiv> (if corr then s + 1 else 0)"
  shows "(d_action D = ease \<longrightarrow>
            suggestedLevel D = nextLevel lvl down \<and> nextSuccessStreak D = 0)
       \<and> (d_action D \<noteq> ease \<and> cand \<ge> 3 \<longrightarrow>
            suggestedLevel D = nextLevel lvl up \<and> nextSuccessStreak D = 0)
       \<and> (d_action D \<noteq> ease \<and> cand < 3 \<longrightarrow>
            suggestedLevel D = lvl \<and> nextSuccessStreak D = cand)
       \<and> nextLevel easy down = easy \<and> nextLevel medium down = easy
       \<and> nextLevel hard down = medium
       \<and> nextLevel easy up = medium \<and> nextLevel medium up = hard
       \<and> nextLevel hard up = hard"
  unfolding D_def cand_def by (simp add: fallbackPolicy_def Let_def nextLevel_table)

theorem fallbackPolicy_level_and_successStreak_witness:
  "d_action (fallbackPolicy \<lparr>fvalue = 1, components = \<lparr>comp_e = 1, comp_h = 1, comp_r = 1, comp_t = 1, comp_s = 1\<rparr>\<rparr> medium 1 2 False) = ease
 \<and> suggestedLevel (fallbackPolicy \<lparr>fvalue = 1, components = \<lparr>comp_e = 1, comp_h = 1, comp_r = 1, comp_t = 1, comp_s = 1\<rparr>\<rparr> medium 1 2 False) = easy
 \<and> nextSuccessStreak (fallbackPolicy \<lparr>fvalue = 1, components = \<lparr>comp_e = 1, comp_h = 1, comp_r = 1, comp_t = 1, comp_s = 1\<rparr>\<rparr> medium 1 2 False) = 0
 \<and> d_action (fallbackPolicy \<lparr>fvalue = 0, components = \<lparr>comp_e = 0, comp_h = 0, comp_r = 0, comp_t = 0, comp_s = 0\<rparr>\<rparr> medium 0 2 True) \<noteq> ease
 \<and> suggestedLevel (fallbackPolicy \<lparr>fvalue = 0, components = \<lparr>comp_e = 0, comp_h = 0, comp_r = 0, comp_t = 0, comp_s = 0\<rparr>\<rparr> medium 0 2 True) = hard
 \<and> nextSuccessStreak (fallbackPolicy \<lparr>fvalue = 0, components = \<lparr>comp_e = 0, comp_h = 0, comp_r = 0, comp_t = 0, comp_s = 0\<rparr>\<rparr> medium 0 2 True) = 0
 \<and> d_action (fallbackPolicy \<lparr>fvalue = 0, components = \<lparr>comp_e = 0, comp_h = 0, comp_r = 0, comp_t = 0, comp_s = 0\<rparr>\<rparr> medium 0 1 True) \<noteq> ease
 \<and> suggestedLevel (fallbackPolicy \<lparr>fvalue = 0, components = \<lparr>comp_e = 0, comp_h = 0, comp_r = 0, comp_t = 0, comp_s = 0\<rparr>\<rparr> medium 0 1 True) = medium
 \<and> nextSuccessStreak (fallbackPolicy \<lparr>fvalue = 0, components = \<lparr>comp_e = 0, comp_h = 0, comp_r = 0, comp_t = 0, comp_s = 0\<rparr>\<rparr> medium 0 1 True) = 2"
proof -
  let ?hi = "\<lparr>fvalue = 1, components = \<lparr>comp_e = 1, comp_h = 1, comp_r = 1, comp_t = 1, comp_s = 1\<rparr>\<rparr>"
  let ?lo = "\<lparr>fvalue = 0, components = \<lparr>comp_e = 0, comp_h = 0, comp_r = 0, comp_t = 0, comp_s = 0\<rparr>\<rparr>"
  have a: "d_action (fallbackPolicy ?hi medium 1 2 False) = ease"
    by (simp add: fallbackPolicy_def Let_def)
  have b: "d_action (fallbackPolicy ?lo medium 0 2 True) \<noteq> ease"
    by (simp add: fallbackPolicy_def Let_def)
  have c: "d_action (fallbackPolicy ?lo medium 0 1 True) \<noteq> ease"
    by (simp add: fallbackPolicy_def Let_def)
  show ?thesis
    using a b c
      fallbackPolicy_level_and_successStreak [of ?hi medium 1 2 False]
      fallbackPolicy_level_and_successStreak [of ?lo medium 0 2 True]
      fallbackPolicy_level_and_successStreak [of ?lo medium 0 1 True]
    by simp
qed

section \<open>Properties of the round generator\<close>

lemma nextRandom_unit:
  assumes "unitDraws g"
  shows "0 \<le> fst (nextRandom g)" "fst (nextRandom g) < 1" "unitDraws (snd (nextRandom g))"
  using assms by (simp_all add: unitDraws_def nextRandom_def)

lemma floor_index_range:
  fixes u :: rat
  assumes "0 \<le> u" "u < 1" "0 < n"
  shows "0 \<le> \<lfloor>u * of_nat n\<rfloor> \<and> \<lfloor>u * of_nat n\<rfloor> < int n"
proof -
  have "0 \<le> u * of_nat n" using assms by simp
  then have lo: "0 \<le> \<lfloor>u * of_nat n\<rfloor>" by simp
  have "u * of_nat n < 1 * of_nat n"
    using assms by (intro mult_strict_right_mono) simp_all
  then have "u * of_nat n < of_int (int n)" by simp
  then have "\<lfloor>u * of_nat n\<rfloor> < int n" by (simp only: floor_less_iff)
  then show ?thesis using lo by simp
qed


lemma elemAt_Some:
  assumes "0 \<le> i" "i < int (length arr)"
  shows "elemAt arr i = Some (arr ! nat i)"
  using assms by (simp add: elemAt_def)

lemma shuffleFrom_perm:
  assumes "unitDraws g" "k < length a \<or> k = 0"
  shows "\<exists>a' g'. shuffleFrom k a g = Some (a', g') \<and> mset a' = mset a \<and> unitDraws g'"
  using assms
proof (induction k arbitrary: a g)
  case 0
  then show ?case by simp
next
  case (Suc k)
  obtain u g1 where ng: "nextRandom g = (u, g1)" by (cases "nextRandom g")
  have u: "0 \<le> u" "u < 1" and g1: "unitDraws g1"
    using nextRandom_unit [OF Suc.prems(1)] ng by simp_all
  have len: "Suc k < length a" using Suc.prems(2) by simp
  define j where "j = \<lfloor>u * (of_nat (Suc k) + 1)\<rfloor>"
  have "j = \<lfloor>u * of_nat (Suc (Suc k))\<rfloor>" by (simp add: j_def add.commute)
  then have jr: "0 \<le> j \<and> j < int (Suc (Suc k))"
    using floor_index_range [OF u, of "Suc (Suc k)"] by simp
  then have jlen: "j < int (length a)" and j0: "0 \<le> j" using len by simp_all
  let ?a = "a[Suc k := a ! nat j, nat j := a ! Suc k]"
  have step: "shuffleFrom (Suc k) a g = shuffleFrom k ?a g1"
    using ng jlen j0 len by (simp add: j_def Let_def)
  have natj: "nat j < length a" using jlen j0 by simp
  have ms: "mset ?a = mset a" using mset_swap [OF natj len] .
  have "k < length ?a \<or> k = 0" using len by simp
  from Suc.IH [OF g1 this] obtain a' g' where
    "shuffleFrom k ?a g1 = Some (a', g')" "mset a' = mset ?a" "unitDraws g'" by blast
  then show ?case using step ms by simp
qed

lemma shuffle_perm:
  assumes "unitDraws g"
  shows "\<exists>a' g'. shuffle arr g = Some (a', g') \<and> mset a' = mset arr \<and> unitDraws g'"
proof -
  have "length arr - 1 < length arr \<or> length arr - 1 = 0" by (cases arr) simp_all
  from shuffleFrom_perm [OF assms this] show ?thesis by (simp add: shuffle_def)
qed

lemma makeBaseSwatch_props:
  assumes "unitDraws g"
  shows "label (fst (makeBaseSwatch numStr c g)) = c"
    and "hex (fst (makeBaseSwatch numStr c g)) = BASE_COLOR c"
    and "unitDraws (snd (makeBaseSwatch numStr c g))"
  using assms by (simp_all add: makeBaseSwatch_def nextRandom_def unitDraws_def)

lemma makeBaseSwatches_props:
  assumes "unitDraws g"
  shows "map label (fst (makeBaseSwatches numStr cs g)) = cs
       \<and> list_all (\<lambda>d. hex d = BASE_COLOR (label d)) (fst (makeBaseSwatches numStr cs g))
       \<and> unitDraws (snd (makeBaseSwatches numStr cs g))"
  using assms
proof (induction cs arbitrary: g)
  case Nil
  then show ?case by simp
next
  case (Cons c cs)
  obtain sw g1 where m: "makeBaseSwatch numStr c g = (sw, g1)" by (cases "makeBaseSwatch numStr c g")
  have sw: "label sw = c" "hex sw = BASE_COLOR c" "unitDraws g1"
    using makeBaseSwatch_props [OF Cons.prems, of numStr c] m by simp_all
  obtain sws g2 where ms: "makeBaseSwatches numStr cs g1 = (sws, g2)"
    by (cases "makeBaseSwatches numStr cs g1")
  from Cons.IH [OF sw(3), unfolded ms] show ?case using m ms sw by simp
qed

lemma SWATCHES_labels: "SWATCHES c l \<noteq> [] \<and> list_all (\<lambda>v. label v = c) (SWATCHES c l)"
  by (cases c; cases l) (simp_all add: SWATCHES_def)

lemma correctSwatch_props:
  assumes "unitDraws g"
  shows "\<exists>sw g'. correctSwatch numStr tgt lvl g = Some (sw, g') \<and> label sw = tgt \<and> unitDraws g'
           \<and> (lvl = easy \<longrightarrow> hex sw = BASE_COLOR tgt)"
proof (cases "lvl = easy")
  case True
  obtain sw g1 where m: "makeBaseSwatch numStr tgt g = (sw, g1)" by (cases "makeBaseSwatch numStr tgt g")
  then show ?thesis
    using True makeBaseSwatch_props [OF assms, of numStr tgt] by (simp add: correctSwatch_def)
next
  case False
  obtain u g1 where ng: "nextRandom g = (u, g1)" by (cases "nextRandom g")
  have u: "0 \<le> u" "u < 1" and g1: "unitDraws g1"
    using nextRandom_unit [OF assms] ng by simp_all
  let ?arr = "SWATCHES tgt lvl"
  have ne: "0 < length ?arr" using SWATCHES_labels [of tgt lvl] by simp
  define i where "i = \<lfloor>u * of_nat (length ?arr)\<rfloor>"
  have ir: "0 \<le> i \<and> i < int (length ?arr)" unfolding i_def by (rule floor_index_range [OF u ne])
  then have el: "elemAt ?arr i = Some (?arr ! nat i)" by (simp add: elemAt_Some)
  have "nat i < length ?arr" using ir by linarith
  then have lab: "label (?arr ! nat i) = tgt"
    using SWATCHES_labels [of tgt lvl] by (simp add: list_all_length)
  obtain v g2 where n2: "nextRandom g1 = (v, g2)" by (cases "nextRandom g1")
  have g2: "unitDraws g2" using nextRandom_unit(3) [OF g1] n2 by simp
  have "correctSwatch numStr tgt lvl g =
          Some ((?arr ! nat i)\<lparr>swatch_id := colorName tgt @ ''_'' @ randomTail numStr v\<rparr>, g2)"
    using False ng n2 el by (simp add: correctSwatch_def pickOne_def i_def)
  then show ?thesis using lab g2 False by simp
qed


lemma candidates_nonempty:
  "0 < length (case prev of Some p \<Rightarrow> filter (\<lambda>c. c \<noteq> p) [rojo, azul, amarillo]
                          | None \<Rightarrow> [rojo, azul, amarillo])"
  by (cases prev; simp)

lemma makeRound_shape:
  fixes prev :: "ColorKey option"
  assumes "unitDraws g"
  defines "cands \<equiv> (case prev of Some p \<Rightarrow> filter (\<lambda>c. c \<noteq> p) [rojo, azul, amarillo]
                               | None \<Rightarrow> [rojo, azul, amarillo])"
  shows "\<exists>R g' cs ds. makeRound numStr now prev lvl g = Some (R, g') \<and> unitDraws g'
           \<and> elemAt cands \<lfloor>g 0 * of_nat (length cands)\<rfloor> = Some (target R)
           \<and> round_level R = lvl
           \<and> label cs = target R
           \<and> map label ds = filter (\<lambda>c. c \<noteq> target R) [rojo, azul, amarillo]
           \<and> list_all (\<lambda>d. hex d = BASE_COLOR (label d)) ds
           \<and> mset (options R) = mset (cs # ds)
           \<and> (lvl = easy \<longrightarrow> hex cs = BASE_COLOR (target R))"
proof -
  obtain u g1 where ng: "nextRandom g = (u, g1)" by (cases "nextRandom g")
  have u0: "u = g 0" using ng by (simp add: nextRandom_def)
  have u: "0 \<le> u" "u < 1" and g1: "unitDraws g1"
    using nextRandom_unit [OF assms(1)] ng by simp_all
  have ne: "0 < length cands" unfolding cands_def by (rule candidates_nonempty)
  define i where "i = \<lfloor>u * of_nat (length cands)\<rfloor>"
  have ir: "0 \<le> i \<and> i < int (length cands)" unfolding i_def by (rule floor_index_range [OF u ne])
  define tgt where "tgt = cands ! nat i"
  have el: "elemAt cands i = Some tgt" using ir by (simp add: elemAt_Some tgt_def)
  obtain cs g2 where c: "correctSwatch numStr tgt lvl g1 = Some (cs, g2)" "label cs = tgt"
    "unitDraws g2" "lvl = easy \<longrightarrow> hex cs = BASE_COLOR tgt"
    using correctSwatch_props [OF g1, of numStr tgt lvl] by blast
  obtain ds g3 where d: "makeBaseSwatches numStr (filter (\<lambda>c. c \<noteq> tgt) [rojo, azul, amarillo]) g2 = (ds, g3)"
    by (cases "makeBaseSwatches numStr (filter (\<lambda>c. c \<noteq> tgt) [rojo, azul, amarillo]) g2")
  have dp: "map label ds = filter (\<lambda>c. c \<noteq> tgt) [rojo, azul, amarillo]"
    "list_all (\<lambda>d. hex d = BASE_COLOR (label d)) ds" "unitDraws g3"
    using makeBaseSwatches_props [OF c(3), of numStr "filter (\<lambda>c. c \<noteq> tgt) [rojo, azul, amarillo]"] d
    by simp_all
  obtain opts g4 where s: "shuffle (cs # ds) g3 = Some (opts, g4)" "mset opts = mset (cs # ds)"
    "unitDraws g4"
    using shuffle_perm [OF dp(3), of "cs # ds"] by blast
  obtain v g5 where n5: "nextRandom g4 = (v, g5)" by (cases "nextRandom g4")
  have g5: "unitDraws g5" using nextRandom_unit(3) [OF s(3)] n5 by simp
  define R where "R = \<lparr>round_id = numStr 10 now @ ''-'' @ randomTail numStr v, target = tgt,
                  round_level = lvl, options = opts\<rparr>"
  have mk: "makeRound numStr now prev lvl g = Some (R, g5)"
    using ng el c(1) d s(1) n5
    by (simp add: makeRound_def cands_def [symmetric] i_def [symmetric] R_def)
  have R: "target R = tgt" "round_level R = lvl" "options R = opts" by (simp_all add: R_def)
  have el': "elemAt cands \<lfloor>g 0 * of_nat (length cands)\<rfloor> = Some (target R)"
    using el by (simp add: i_def u0 R)
  show ?thesis
    apply (rule exI [of _ R], rule exI [of _ g5], rule exI [of _ cs], rule exI [of _ ds])
    using mk g5 el' c(2,4) dp(1,2) s(2) by (simp only: R simp_thms)
qed





text \<open>
  C7. With draws in \<open>[0,1)\<close>, at every level the round has three options, exactly one of
  which carries the target as its label, and every other option has the base colour of its
  own label.
\<close>

theorem makeRound_one_correct_option:
  fixes prev :: "ColorKey option" and g :: rng
  assumes "unitDraws g"
  shows "\<exists>R g'. makeRound numStr now prev lvl g = Some (R, g')
           \<and> length (options R) = 3
           \<and> length (filter (\<lambda>sw. label sw = target R) (options R)) = 1
           \<and> (\<forall>sw \<in> set (options R). label sw \<noteq> target R \<longrightarrow> hex sw = BASE_COLOR (label sw))"
proof -
  obtain R g' cs ds where mk: "makeRound numStr now prev lvl g = Some (R, g')"
    and cs: "label cs = target R"
    and dl: "map label ds = filter (\<lambda>c. c \<noteq> target R) [rojo, azul, amarillo]"
    and dh: "list_all (\<lambda>d. hex d = BASE_COLOR (label d)) ds"
    and ms: "mset (options R) = mset (cs # ds)"
    using makeRound_shape [OF assms, of numStr now prev lvl] by blast
  have "length ds = length (map label ds)" by simp
  also have "\<dots> = 2" unfolding dl by (cases "target R") simp_all
  finally have lds: "length ds = 2" .
  have "length (options R) = size (mset (options R))" by simp
  also have "\<dots> = 3" unfolding ms using lds by simp
  finally have l3: "length (options R) = 3" .
  have nod: "\<forall>d \<in> set ds. label d \<noteq> target R"
  proof
    fix d assume "d \<in> set ds"
    then have "label d \<in> set (map label ds)" by simp
    then have "label d \<in> {c \<in> set [rojo, azul, amarillo]. c \<noteq> target R}"
      unfolding dl by (simp only: set_filter)
    then show "label d \<noteq> target R" by simp
  qed
  then have fd: "filter (\<lambda>sw. label sw = target R) ds = []" by (simp add: filter_empty_conv)
  have "length (filter (\<lambda>sw. label sw = target R) (options R))
          = size (filter_mset (\<lambda>sw. label sw = target R) (mset (options R)))"
    by (simp flip: mset_filter)
  also have "\<dots> = length (filter (\<lambda>sw. label sw = target R) (cs # ds))"
    unfolding ms by (simp flip: mset_filter)
  also have "\<dots> = 1" using cs fd by simp
  finally have one: "length (filter (\<lambda>sw. label sw = target R) (options R)) = 1" .
  have "set (options R) = set (cs # ds)" using ms by (rule mset_eq_setD)
  then have base: "\<forall>sw \<in> set (options R). label sw \<noteq> target R \<longrightarrow> hex sw = BASE_COLOR (label sw)"
    using cs dh by (auto simp: list_all_iff)
  show ?thesis
    apply (rule exI [of _ R], rule exI [of _ g'])
    using mk l3 one base by (simp only: simp_thms)
qed

theorem makeRound_one_correct_option_witness:
  "unitDraws (\<lambda>n. 1 / 2)
   \<and> (\<exists>R g'. makeRound (\<lambda>r x. ''0.8'') 0 (Some rojo) hard (\<lambda>n. 1 / 2) = Some (R, g')
         \<and> length (options R) = 3
         \<and> length (filter (\<lambda>sw. label sw = target R) (options R)) = 1
         \<and> list_all (\<lambda>sw. label sw = target R \<or> hex sw = BASE_COLOR (label sw)) (options R))"
proof -
  have h: "unitDraws (\<lambda>n. 1 / 2)" by (simp add: unitDraws_def)
  show ?thesis
    using h makeRound_one_correct_option [OF h, of "\<lambda>r x. ''0.8''" 0 "Some rojo" hard]
    by (auto simp: list_all_iff)
qed

section \<open>Properties of the attempt log\<close>

lemma logAttempt_take: "logAttempt a (take MAX_ATTEMPTS prev) = logAttempt a prev"
  by (simp add: logAttempt_def MAX_ATTEMPTS_def take_Cons')

lemma logAll_take:
  "logAll (take MAX_ATTEMPTS prev) as = take MAX_ATTEMPTS (rev as @ prev)"
proof (induction as arbitrary: prev)
  case Nil
  show ?case by simp
next
  case (Cons a as)
  have "logAll (take MAX_ATTEMPTS prev) (a # as) = logAll (logAttempt a prev) as"
    by (simp add: logAttempt_take)
  also have "\<dots> = logAll (take MAX_ATTEMPTS (a # prev)) as" by (simp add: logAttempt_def)
  also have "\<dots> = take MAX_ATTEMPTS (rev as @ a # prev)" by (rule Cons.IH)
  finally show ?case by simp
qed

text \<open>
  C8. The log starts as the first \<open>MAX_ATTEMPTS\<close> records of what was loaded (or empty).
  After any records \<open>as\<close> are written it has at most 100 records, and it is the first 100
  of the newest-first sequence of everything written and loaded: the most recent records
  stay and the oldest are dropped.
\<close>

theorem logAll_bounded_most_recent:
  "length (logAll (take MAX_ATTEMPTS loaded) as) \<le> 100
   \<and> logAll (take MAX_ATTEMPTS loaded) as = take 100 (rev as @ loaded)
   \<and> logAll [] as = take 100 (rev as)
   \<and> MAX_ATTEMPTS = 100"
proof -
  have a: "logAll (take MAX_ATTEMPTS loaded) as = take 100 (rev as @ loaded)"
    using logAll_take [of loaded as] by (simp add: MAX_ATTEMPTS_def)
  have b: "logAll [] as = take 100 (rev as)"
    using logAll_take [of "[]" as] by (simp add: MAX_ATTEMPTS_def)
  show ?thesis unfolding a b by (simp add: MAX_ATTEMPTS_def)
qed

lemma applyDecision_attempts:
  assumes "applyDecision numStr env st st0 swatch rd q d src = Inr (st', tm)"
  shows "attempts st' = logAttempt (attemptOf st swatch rd q d src (now_log env)) (attempts st0)"
  using assms
  by (auto simp: applyDecision_def Let_def split: prod.splits option.splits if_splits)

lemma applyMetrics_attempts: "attempts (applyMetrics st swatch corr) = attempts st"
  by (simp add: applyMetrics_def Let_def split: prod.splits)

lemma logAttempt_first: "logAttempt a prev ! 0 = a"
  by (simp add: logAttempt_def MAX_ATTEMPTS_def)

lemma buildRequest_correct:
  "q_correct (buildRequest st swatch rd now) = (label swatch = target rd)"
  by (simp add: buildRequest_def Let_def split: prod.splits)

section \<open>Properties of the handler and the gateway\<close>

lemma buildRequest_on_correct:
  assumes "label swatch = target rd"
  shows "q_errorsConsecutive (buildRequest st swatch rd now) = 0"
    and "q_retriesSameRound (buildRequest st swatch rd now) = 0"
    and "q_perseveration (buildRequest st swatch rd now) = 0"
  using assms by (simp_all add: buildRequest_def metrics_def Let_def)

lemma fallbackDecision_quiet:
  assumes "q_errorsConsecutive q = 0" "q_retriesSameRound q = 0" "q_perseveration q = 0"
  defines "d \<equiv> fallbackDecision q"
  shows "comp_e (components (d_frustration d)) = 0"
    and "comp_r (components (d_frustration d)) = 0"
    and "comp_s (components (d_frustration d)) = 0"
    and "fvalue (d_frustration d) \<le> 40 / 100"
    and "d_action d \<noteq> ease"
    and "nextHighFrustrationStreak d = 0"
proof -
  define p where "p = \<lparr>p_errorsConsecutive = q_errorsConsecutive q,
           p_hintsUsed = q_hintsUsed q,
           p_retriesSameRound = q_retriesSameRound q,
           p_latencySec = q_latencySec q,
           p_perseveration = q_perseveration q\<rparr>"
  define fr where "fr = computeFrustration p"
  define c where "c = components fr"
  have dfr: "d_frustration d = fr"
    by (simp add: d_def fallbackDecision_def fallbackPolicy_def Let_def fr_def p_def
        split: prod.splits)
  have e: "comp_e c = 0" and r: "comp_r c = 0" and s: "comp_s c = 0"
    unfolding c_def fr_def computeFrustration_unfold
    using assms(1-3) by (simp_all add: p_def dbl_zero clamp_def)
  note f = computeFrustration_facts [of p, folded fr_def c_def]
  have w0: "0 \<le> weighted c" by (rule f(9))
  have wu: "weighted c \<le> 20 / 100 * comp_h c + 20 / 100 * comp_t c + 1 / 2 ^ 49"
    using f(10) e r s by simp
  have w4: "weighted c \<le> 40 / 100 + 1 / 2 ^ 49" using wu f(2) f(4) by linarith
  have w2: "weighted c \<le> 2" using w4 by simp
  have "100 * weighted c + 1 / 2 < of_int (40 + 1)" using w4 by simp
  then have "toFixed2 (weighted c) \<le> of_int 40 / 100"
    using w0 w2 by (intro toFixed2_le_hundredths)
  then have le: "fvalue fr \<le> 40 / 100"
    unfolding c_def fr_def computeFrustration_unfold(2) by simp
  show "comp_e (components (d_frustration d)) = 0" "comp_r (components (d_frustration d)) = 0"
    "comp_s (components (d_frustration d)) = 0"
    using e r s by (simp_all add: dfr c_def)
  show "fvalue (d_frustration d) \<le> 40 / 100" using le by (simp add: dfr)
  have d: "d = fallbackPolicy fr (q_level q) (q_highFrustrationStreak q) (q_successStreak q) (q_correct q)"
    by (simp add: d_def fallbackDecision_def fr_def p_def)
  show "d_action d \<noteq> ease" using le unfolding d by (simp add: fallbackPolicy_def Let_def)
  show "nextHighFrustrationStreak d = 0" using le unfolding d by (simp add: fallbackPolicy_def Let_def)
qed

text \<open>
  C9. On a correct pick the request carries \<open>errorsConsecutive\<close>, \<open>retriesSameRound\<close> and
  \<open>perseveration\<close> equal to 0. The local decision on it then has the error, retry and
  perseveration components 0 and a frustration value of at most 0.40; its action is not
  \<open>ease\<close> and its next high-frustration streak is 0.
\<close>

theorem correct_pick_never_eases:
  fixes st :: Session and swatch :: Swatch and rd :: Round and now :: rat
  assumes "label swatch = target rd"
  defines "q \<equiv> buildRequest st swatch rd now"
  defines "d \<equiv> fallbackDecision q"
  shows "q_correct q
       \<and> q_errorsConsecutive q = 0 \<and> q_retriesSameRound q = 0 \<and> q_perseveration q = 0
       \<and> comp_e (components (d_frustration d)) = 0
       \<and> comp_r (components (d_frustration d)) = 0
       \<and> comp_s (components (d_frustration d)) = 0
       \<and> fvalue (d_frustration d) \<le> 40 / 100
       \<and> d_action d \<noteq> ease
       \<and> nextHighFrustrationStreak d = 0"
proof -
  note z = buildRequest_on_correct [OF assms(1), of st now, folded q_def]
  have c: "q_correct q" using assms(1) by (simp add: q_def buildRequest_correct)
  show ?thesis
    using c z fallbackDecision_quiet [OF z] unfolding d_def by simp
qed


theorem correct_pick_never_eases_witness:
  "label \<lparr>swatch_id = ''rojo_1'', label = rojo, hex = ''#FF7AA2''\<rparr>
     = target \<lparr>round_id = ''r1'', target = rojo, round_level = medium, options = []\<rparr>
   \<and> q_errorsConsecutive
        (buildRequest
          \<lparr>decisionSource = fallback, level = medium, round_st = None,
             feedback = idle, lastChosen = None, successStreak = 0, pendingLevelUp = False,
             highFrustrationStreak = 1, hintOn = False, hintsUsed = 2, attempts = [],
             roundStartTs = 1000, errorsConsecutive = 2, retriesSameRound = 2,
             lastWrongChoice = Some ''azul_1'', perseveration = 1\<rparr>
          \<lparr>swatch_id = ''rojo_1'', label = rojo, hex = ''#FF7AA2''\<rparr>
          \<lparr>round_id = ''r1'', target = rojo, round_level = medium, options = []\<rparr>
          13400) = 0
   \<and> fvalue (d_frustration (fallbackDecision
        (buildRequest
          \<lparr>decisionSource = fallback, level = medium, round_st = None,
             feedback = idle, lastChosen = None, successStreak = 0, pendingLevelUp = False,
             highFrustrationStreak = 1, hintOn = False, hintsUsed = 2, attempts = [],
             roundStartTs = 1000, errorsConsecutive = 2, retriesSameRound = 2,
             lastWrongChoice = Some ''azul_1'', perseveration = 1\<rparr>
          \<lparr>swatch_id = ''rojo_1'', label = rojo, hex = ''#FF7AA2''\<rparr>
          \<lparr>round_id = ''r1'', target = rojo, round_level = medium, options = []\<rparr>
          13400))) \<le> 40 / 100
   \<and> d_action (fallbackDecision
        (buildRequest
          \<lparr>decisionSource = fallback, level = medium, round_st = None,
             feedback = idle, lastChosen = None, successStreak = 0, pendingLevelUp = False,
             highFrustrationStreak = 1, hintOn = False, hintsUsed = 2, attempts = [],
             roundStartTs = 1000, errorsConsecutive = 2, retriesSameRound = 2,
             lastWrongChoice = Some ''azul_1'', perseveration = 1\<rparr>
          \<lparr>swatch_id = ''rojo_1'', label = rojo, hex = ''#FF7AA2''\<rparr>
          \<lparr>round_id = ''r1'', target = rojo, round_level = medium, options = []\<rparr>
          13400)) \<noteq> ease
   \<and> nextHighFrustrationStreak (fallbackDecision
        (buildRequest
          \<lparr>decisionSource = fallback, level = medium, round_st = None,
             feedback = idle, lastChosen = None, successStreak = 0, pendingLevelUp = False,
             highFrustrationStreak = 1, hintOn = False, hintsUsed = 2, attempts = [],
             roundStartTs = 1000, errorsConsecutive = 2, retriesSameRound = 2,
             lastWrongChoice = Some ''azul_1'', perseveration = 1\<rparr>
          \<lparr>swatch_id = ''rojo_1'', label = rojo, hex = ''#FF7AA2''\<rparr>
          \<lparr>round_id = ''r1'', target = rojo, round_level = medium, options = []\<rparr>
          13400)) = 0"
  (is "label ?W = target ?R \<and> _ (buildRequest ?S ?W ?R ?t) = 0 \<and> _")
proof -
  have h: "label ?W = target ?R" by simp
  show ?thesis using h correct_pick_never_eases [OF h, of ?S ?t] by simp
qed

lemma applyDecision_completes:
  assumes "unitDraws (rnd env)"
  shows "\<exists>st' tm. applyDecision numStr env st st0 swatch rd q d src = Inr (st', tm)
           \<and> decisionSource st' = decisionSource st0
           \<and> attempts st' = logAttempt (attemptOf st swatch rd q d src (now_log env)) (attempts st0)"
proof (cases "d_action d = ease")
  case True
  obtain r g where "makeRound numStr (now_round env) (Some (target rd)) (suggestedLevel d) (rnd env) = Some (r, g)"
    using makeRound_shape [OF assms, of numStr "now_round env" "Some (target rd)" "suggestedLevel d"]
    by blast
  then show ?thesis using True
    by (simp add: applyDecision_def Let_def split: prod.splits)
next
  case False
  then show ?thesis
    by (simp add: applyDecision_def Let_def split: prod.splits)
qed

lemma applyDecision_streaks:
  assumes "applyDecision numStr env st st0 swatch rd q d src = Inr (st', tm)"
  shows "highFrustrationStreak st' = nextHighFrustrationStreak d"
    and "successStreak st' = nextSuccessStreak d"
    and "level st' = suggestedLevel d"
  using assms
  by (auto simp: applyDecision_def Let_def split: prod.splits option.splits if_splits)

lemma gateway_failed:
  assumes "f = NetworkError \<or> f = Aborted \<or> (\<exists>b. f = Response False b) \<or> f = Response True NotJson"
  shows "gateway q f = (Dec (fallbackDecision q), fallback)"
  using assms by (auto simp: gateway_def)

lemma gateway_decided:
  assumes "f \<noteq> Response True JsonNull"
  shows "\<exists>d src. gateway q f = (Dec d, src)"
proof (cases f)
  case (Response ok body)
  then show ?thesis using assms by (cases body; cases ok) (simp_all add: gateway_def)
qed (simp_all add: gateway_def)

text \<open>
  On a network error, an abort, a response that is not \<open>ok\<close> or a body that is not JSON,
  \<open>onPick\<close> completes with the decision of the local policy and scorer, tagged
  \<open>fallback\<close>, and logs it.
\<close>

lemma onPick_falls_back:
  assumes "fetched env = NetworkError \<or> fetched env = Aborted \<or> (\<exists>b. fetched env = Response False b)
           \<or> fetched env = Response True NotJson"
    and "unitDraws (rnd env)" and "round_st st = Some rd"
  shows "\<exists>st' tm. onPick numStr env st swatch = Inr (st', tm)
           \<and> decisionSource st' = fallback
           \<and> source (attempts st' ! 0) = fallback
           \<and> action (attempts st' ! 0)
               = d_action (fallbackDecision (buildRequest st swatch rd (now_pick env)))"
proof -
  let ?q = "buildRequest st swatch rd (now_pick env)"
  let ?d = "fallbackDecision ?q"
  let ?st0 = "(applyMetrics st swatch (q_correct ?q))\<lparr>decisionSource := fallback\<rparr>"
  have g: "gateway ?q (fetched env) = (Dec ?d, fallback)" using assms(1) by (rule gateway_failed)
  have on: "onPick numStr env st swatch = applyDecision numStr env st ?st0 swatch rd ?q ?d fallback"
    using assms(3) g by (simp add: onPick_def Let_def)
  obtain st' tm where r: "applyDecision numStr env st ?st0 swatch rd ?q ?d fallback = Inr (st', tm)"
    "decisionSource st' = decisionSource ?st0"
    "attempts st' = logAttempt (attemptOf st swatch rd ?q ?d fallback (now_log env)) (attempts ?st0)"
    using applyDecision_completes [OF assms(2), of numStr st ?st0 swatch rd ?q ?d fallback] by blast
  have r2: "decisionSource st' = fallback" using r(2) by simp
  have "source (attempts st' ! 0) = fallback" "action (attempts st' ! 0) = d_action ?d"
    unfolding r(3) logAttempt_first by (simp_all add: attemptOf_def)
  then show ?thesis using on r(1) r2 by auto
qed

text \<open>
  Every pick on a session with a round that the gateway answers with a decision object,
  local or remote, completes and puts its record in front of the log, cut to 100: the log
  is newest-first, and the record at index 0 is the one just written.
\<close>

lemma onPick_prepends_decided_attempt:
  assumes "round_st st = Some rd" and "unitDraws (rnd env)"
    and "fetched env \<noteq> Response True JsonNull"
  shows "\<exists>st' tm a. onPick numStr env st swatch = Inr (st', tm)
           \<and> attempts st' = take 100 (a # attempts st)
           \<and> attempts st' ! 0 = a
           \<and> roundId a = round_id rd
           \<and> att_target a = target rd
           \<and> chosen a = label swatch
           \<and> correct a = (label swatch = target rd)
           \<and> ts a = now_log env
           \<and> levelBefore a = level st"
proof -
  let ?q = "buildRequest st swatch rd (now_pick env)"
  obtain d src where g: "gateway ?q (fetched env) = (Dec d, src)"
    using gateway_decided [OF assms(3), of ?q] by blast
  let ?st0 = "(applyMetrics st swatch (q_correct ?q))\<lparr>decisionSource := src\<rparr>"
  let ?a = "attemptOf st swatch rd ?q d src (now_log env)"
  have on: "onPick numStr env st swatch = applyDecision numStr env st ?st0 swatch rd ?q d src"
    using assms(1) g by (simp add: onPick_def Let_def)
  obtain st' tm where r: "applyDecision numStr env st ?st0 swatch rd ?q d src = Inr (st', tm)"
    "attempts st' = logAttempt ?a (attempts ?st0)"
    using applyDecision_completes [OF assms(2), of numStr st ?st0 swatch rd ?q d src] by blast
  have 1: "attempts st' = take 100 (?a # attempts st)"
    unfolding r(2) by (simp add: logAttempt_def MAX_ATTEMPTS_def applyMetrics_attempts)
  have 2: "attempts st' ! 0 = ?a" unfolding 1 by simp
  have 3: "roundId ?a = round_id rd \<and> att_target ?a = target rd \<and> chosen ?a = label swatch
      \<and> correct ?a = (label swatch = target rd) \<and> ts ?a = now_log env \<and> levelBefore ?a = level st"
    by (simp add: attemptOf_def buildRequest_correct)
  show ?thesis
    apply (rule exI [of _ st'], rule exI [of _ tm], rule exI [of _ ?a])
    using on r(1) 1 2 3 by simp
qed

text \<open>
  The session after a correct pick decided locally: the high-frustration streak is 0
  again.
\<close>

lemma onPick_correct_fallback_resets_streak:
  assumes "round_st st = Some rd" and "label swatch = target rd"
    and "fetched env = NetworkError \<or> fetched env = Aborted \<or> (\<exists>b. fetched env = Response False b)
         \<or> fetched env = Response True NotJson"
    and "onPick numStr env st swatch = Inr (st', tm)"
  shows "highFrustrationStreak st' = 0"
proof -
  let ?q = "buildRequest st swatch rd (now_pick env)"
  let ?d = "fallbackDecision ?q"
  let ?st0 = "(applyMetrics st swatch (q_correct ?q))\<lparr>decisionSource := fallback\<rparr>"
  have g: "gateway ?q (fetched env) = (Dec ?d, fallback)"
    using assms(3) by (rule gateway_failed)
  have "applyDecision numStr env st ?st0 swatch rd ?q ?d fallback = Inr (st', tm)"
    using assms(1,4) g by (simp add: onPick_def Let_def)
  then have "highFrustrationStreak st' = nextHighFrustrationStreak ?d"
    by (rule applyDecision_streaks)
  also have "\<dots> = 0"
    using fallbackDecision_quiet(6) [OF buildRequest_on_correct [OF assms(2), of st "now_pick env"]] .
  finally show ?thesis .
qed

text \<open>
  C5 fails on the code at an \<open>ok\<close> response whose body is the JSON value \<open>null\<close>, a body
  that is not of the declared type of \<open>decision\<close>. The gateway keeps \<open>null\<close> as the decision
  with source \<open>backend\<close>, where on a connection failure it yields the local decision with
  source \<open>fallback\<close>; \<open>onPick\<close> then stops with a \<open>TypeError\<close> at the destructuring, the
  counters of the wrong pick already written and the source set to \<open>backend\<close>.
\<close>

theorem gateway_null_body_kept_as_backend:
  "gateway
      \<lparr>q_level = easy, q_errorsConsecutive = 1, q_hintsUsed = 0, q_retriesSameRound = 1,
        q_latencySec = 2, q_perseveration = 0, q_highFrustrationStreak = 0,
        q_successStreak = 0, q_correct = False\<rparr>
      (Response True JsonNull)
    = (Null, backend)
   \<and> gateway
      \<lparr>q_level = easy, q_errorsConsecutive = 1, q_hintsUsed = 0, q_retriesSameRound = 1,
        q_latencySec = 2, q_perseveration = 0, q_highFrustrationStreak = 0,
        q_successStreak = 0, q_correct = False\<rparr>
      NetworkError
    = (Dec (fallbackDecision
      \<lparr>q_level = easy, q_errorsConsecutive = 1, q_hintsUsed = 0, q_retriesSameRound = 1,
        q_latencySec = 2, q_perseveration = 0, q_highFrustrationStreak = 0,
        q_successStreak = 0, q_correct = False\<rparr>), fallback)
   \<and> onPick (\<lambda>r x. ''0.8'')
      \<lparr>now_pick = 3000, fetched = Response True JsonNull, now_log = 3001, now_round = 3002,
        now_start = 3003, rnd = (\<lambda>n. 1 / 2)\<rparr>
      \<lparr>decisionSource = fallback, level = easy,
        round_st = Some \<lparr>round_id = ''r1'', target = rojo, round_level = easy,
          options = [\<lparr>swatch_id = ''rojo_1'', label = rojo, hex = ''#FF3B30''\<rparr>,
                     \<lparr>swatch_id = ''azul_1'', label = azul, hex = ''#007AFF''\<rparr>,
                     \<lparr>swatch_id = ''amarillo_1'', label = amarillo, hex = ''#FFD60A''\<rparr>]\<rparr>,
        feedback = idle, lastChosen = None, successStreak = 0, pendingLevelUp = False,
        highFrustrationStreak = 0, hintOn = False, hintsUsed = 0, attempts = [],
        roundStartTs = 1000, errorsConsecutive = 0, retriesSameRound = 0,
        lastWrongChoice = None, perseveration = 0\<rparr>
      \<lparr>swatch_id = ''azul_1'', label = azul, hex = ''#007AFF''\<rparr>
    = Inl (TypeError,
      \<lparr>decisionSource = backend, level = easy,
        round_st = Some \<lparr>round_id = ''r1'', target = rojo, round_level = easy,
          options = [\<lparr>swatch_id = ''rojo_1'', label = rojo, hex = ''#FF3B30''\<rparr>,
                     \<lparr>swatch_id = ''azul_1'', label = azul, hex = ''#007AFF''\<rparr>,
                     \<lparr>swatch_id = ''amarillo_1'', label = amarillo, hex = ''#FFD60A''\<rparr>]\<rparr>,
        feedback = fb_wrong, lastChosen = Some azul, successStreak = 0, pendingLevelUp = False,
        highFrustrationStreak = 0, hintOn = False, hintsUsed = 0, attempts = [],
        roundStartTs = 1000, errorsConsecutive = 1, retriesSameRound = 1,
        lastWrongChoice = Some ''azul_1'', perseveration = 0\<rparr>)"
  by code_simp

text \<open>
  C10 fails on the code at the same response: a pick answered by an \<open>ok\<close> response with
  body \<open>null\<close> prepends nothing. \<open>onPick\<close> stops before \<open>setAttempts\<close>, and the log still
  holds the earlier record at index 0.
\<close>

theorem onPick_null_body_logs_nothing:
  "onPick (\<lambda>r x. ''0.8'')
      \<lparr>now_pick = 3000, fetched = Response True JsonNull, now_log = 3001, now_round = 3002,
        now_start = 3003, rnd = (\<lambda>n. 1 / 2)\<rparr>
      \<lparr>decisionSource = fallback, level = medium,
        round_st = Some \<lparr>round_id = ''r1'', target = rojo, round_level = medium,
          options = [\<lparr>swatch_id = ''azul_1'', label = azul, hex = ''#007AFF''\<rparr>,
                     \<lparr>swatch_id = ''rojo_1'', label = rojo, hex = ''#FF7AA2''\<rparr>,
                     \<lparr>swatch_id = ''amarillo_1'', label = amarillo, hex = ''#FFD60A''\<rparr>]\<rparr>,
        feedback = idle, lastChosen = None, successStreak = 1, pendingLevelUp = False,
        highFrustrationStreak = 0, hintOn = False, hintsUsed = 1,
        attempts = [\<lparr>roundId = ''r0'', att_target = azul, chosen = azul, correct = True,
                      att_hintsUsed = 0, ts = 900, latencySec = 2, frustration = 0,
                      frustrationComponents =
                        \<lparr>comp_e = 0, comp_h = 0, comp_r = 0, comp_t = 0, comp_s = 0\<rparr>,
                      action = keep, source = fallback, levelBefore = medium,
                      levelAfter = medium, rule = none\<rparr>],
        roundStartTs = 1000, errorsConsecutive = 0, retriesSameRound = 0,
        lastWrongChoice = None, perseveration = 0\<rparr>
      \<lparr>swatch_id = ''rojo_1'', label = rojo, hex = ''#FF7AA2''\<rparr>
    = Inl (TypeError,
      \<lparr>decisionSource = backend, level = medium,
        round_st = Some \<lparr>round_id = ''r1'', target = rojo, round_level = medium,
          options = [\<lparr>swatch_id = ''azul_1'', label = azul, hex = ''#007AFF''\<rparr>,
                     \<lparr>swatch_id = ''rojo_1'', label = rojo, hex = ''#FF7AA2''\<rparr>,
                     \<lparr>swatch_id = ''amarillo_1'', label = amarillo, hex = ''#FFD60A''\<rparr>]\<rparr>,
        feedback = fb_correct, lastChosen = Some rojo, successStreak = 1, pendingLevelUp = False,
        highFrustrationStreak = 0, hintOn = False, hintsUsed = 1,
        attempts = [\<lparr>roundId = ''r0'', att_target = azul, chosen = azul, correct = True,
                      att_hintsUsed = 0, ts = 900, latencySec = 2, frustration = 0,
                      frustrationComponents =
                        \<lparr>comp_e = 0, comp_h = 0, comp_r = 0, comp_t = 0, comp_s = 0\<rparr>,
                      action = keep, source = fallback, levelBefore = medium,
                      levelAfter = medium, rule = none\<rparr>],
        roundStartTs = 1000, errorsConsecutive = 0, retriesSameRound = 0,
        lastWrongChoice = None, perseveration = 0\<rparr>)
   \<and> attempts
      \<lparr>decisionSource = backend, level = medium,
        round_st = Some \<lparr>round_id = ''r1'', target = rojo, round_level = medium,
          options = [\<lparr>swatch_id = ''azul_1'', label = azul, hex = ''#007AFF''\<rparr>,
                     \<lparr>swatch_id = ''rojo_1'', label = rojo, hex = ''#FF7AA2''\<rparr>,
                     \<lparr>swatch_id = ''amarillo_1'', label = amarillo, hex = ''#FFD60A''\<rparr>]\<rparr>,
        feedback = fb_correct, lastChosen = Some rojo, successStreak = 1, pendingLevelUp = False,
        highFrustrationStreak = 0, hintOn = False, hintsUsed = 1,
        attempts = [\<lparr>roundId = ''r0'', att_target = azul, chosen = azul, correct = True,
                      att_hintsUsed = 0, ts = 900, latencySec = 2, frustration = 0,
                      frustrationComponents =
                        \<lparr>comp_e = 0, comp_h = 0, comp_r = 0, comp_t = 0, comp_s = 0\<rparr>,
                      action = keep, source = fallback, levelBefore = medium,
                      levelAfter = medium, rule = none\<rparr>],
        roundStartTs = 1000, errorsConsecutive = 0, retriesSameRound = 0,
        lastWrongChoice = None, perseveration = 0\<rparr>
    = attempts
      \<lparr>decisionSource = fallback, level = medium,
        round_st = Some \<lparr>round_id = ''r1'', target = rojo, round_level = medium,
          options = [\<lparr>swatch_id = ''azul_1'', label = azul, hex = ''#007AFF''\<rparr>,
                     \<lparr>swatch_id = ''rojo_1'', label = rojo, hex = ''#FF7AA2''\<rparr>,
                     \<lparr>swatch_id = ''amarillo_1'', label = amarillo, hex = ''#FFD60A''\<rparr>]\<rparr>,
        feedback = idle, lastChosen = None, successStreak = 1, pendingLevelUp = False,
        highFrustrationStreak = 0, hintOn = False, hintsUsed = 1,
        attempts = [\<lparr>roundId = ''r0'', att_target = azul, chosen = azul, correct = True,
                      att_hintsUsed = 0, ts = 900, latencySec = 2, frustration = 0,
                      frustrationComponents =
                        \<lparr>comp_e = 0, comp_h = 0, comp_r = 0, comp_t = 0, comp_s = 0\<rparr>,
                      action = keep, source = fallback, levelBefore = medium,
                      levelAfter = medium, rule = none\<rparr>],
        roundStartTs = 1000, errorsConsecutive = 0, retriesSameRound = 0,
        lastWrongChoice = None, perseveration = 0\<rparr>"
  by code_simp

section \<open>Worked examples\<close>

text \<open>
  Three runs of the local decision: three errors and two retries at 3 s give \<open>F = 0.50\<close>
  and \<open>support\<close>; every signal at its cap with a streak of 1 gives \<open>F = 1\<close>, \<open>ease\<close> and
  one level down; a third correct pick in a row with no frustration gives \<open>keep\<close>, one
  level up and the rule \<open>levelup_by_streak\<close>.
\<close>

lemma example_support:
  "fallbackDecision
     \<lparr>q_level = medium, q_errorsConsecutive = 3, q_hintsUsed = 0, q_retriesSameRound = 2,
        q_latencySec = 3, q_perseveration = 0, q_highFrustrationStreak = 0,
        q_successStreak = 0, q_correct = False\<rparr>
   = \<lparr>d_frustration =
         \<lparr>fvalue = 50 / 100,
            components = \<lparr>comp_e = 1, comp_h = 0, comp_r = 1, comp_t = 0, comp_s = 0\<rparr>\<rparr>,
       d_action = support, suggestedLevel = medium,
       nextHighFrustrationStreak = 0, nextSuccessStreak = 0\<rparr>"
  by code_simp

lemma example_ease:
  "fallbackDecision
     \<lparr>q_level = medium, q_errorsConsecutive = 3, q_hintsUsed = 2, q_retriesSameRound = 2,
        q_latencySec = 12, q_perseveration = 2, q_highFrustrationStreak = 1,
        q_successStreak = 2, q_correct = False\<rparr>
   = \<lparr>d_frustration =
         \<lparr>fvalue = 1,
            components = \<lparr>comp_e = 1, comp_h = 1, comp_r = 1, comp_t = 1, comp_s = 1\<rparr>\<rparr>,
       d_action = ease, suggestedLevel = easy,
       nextHighFrustrationStreak = 0, nextSuccessStreak = 0\<rparr>"
  by code_simp

lemma example_levelup:
  "fallbackDecision
     \<lparr>q_level = medium, q_errorsConsecutive = 0, q_hintsUsed = 0, q_retriesSameRound = 0,
        q_latencySec = 2, q_perseveration = 0, q_highFrustrationStreak = 0,
        q_successStreak = 2, q_correct = True\<rparr>
   = \<lparr>d_frustration =
         \<lparr>fvalue = 0,
            components = \<lparr>comp_e = 0, comp_h = 0, comp_r = 0, comp_t = 0, comp_s = 0\<rparr>\<rparr>,
       d_action = keep, suggestedLevel = hard,
       nextHighFrustrationStreak = 0, nextSuccessStreak = 0\<rparr>
   \<and> ruleOf keep hard medium = levelup_by_streak"
  by code_simp

text \<open>
  Two runs where the rounding of the doubles decides the printed value. One retry alone
  gives the sum \<open>0.15 * 0.5\<close>, a double just below \<open>0.075\<close>, printed \<open>0.07\<close>; one error,
  one retry and 9 s give a double just below \<open>0.325\<close>, printed \<open>0.32\<close>. On the exact
  rationals both sums are a tie and would print \<open>0.08\<close> and \<open>0.33\<close>.
\<close>

lemma example_one_retry:
  "fvalue (computeFrustration
     \<lparr>p_errorsConsecutive = 0, p_hintsUsed = 0, p_retriesSameRound = 1,
        p_latencySec = 2, p_perseveration = 0\<rparr>) = 7 / 100
   \<and> toFixed2 (15 / 100 * (1 / 2)) = 8 / 100"
  by code_simp

lemma example_error_retry_slow:
  "fvalue (computeFrustration
     \<lparr>p_errorsConsecutive = 1, p_hintsUsed = 0, p_retriesSameRound = 1,
        p_latencySec = 9, p_perseveration = 0\<rparr>) = 32 / 100
   \<and> toFixed2 (35 / 100 * (1 / 3) + 15 / 100 * (1 / 2) + 20 / 100 * (6 / 9)) = 33 / 100"
  by code_simp

end
